theory Spec2Isabelle
  imports Main "HOL-Library.Char_ord" "HOL-Library.List_Lexorder" "HOL-Library.Sublist"
begin

section \<open>The plugin manager of \<^verbatim>\<open>cogs/plugin.py\<close>\<close>

text \<open>
  The development embeds the classes \<^verbatim>\<open>Plugina\<close> and \<^verbatim>\<open>Plugin\<close> of
  \<^verbatim>\<open>src/cogs/plugin.py\<close>. Python strings and byte strings are \<open>string\<close>; the
  mutable attributes of the cog, of the bot it holds and of the disk are the fields of one
  record that every operation takes and returns; an exception is the \<open>Inl\<close> of a sum, paired
  with the state reached when it was raised. What the outside world answers (the HTTP
  server, the zip decoder, the installer subprocess, the import machinery of the host) is
  read from a record of functions, so that every theorem holds for all such answers.
\<close>

subsection \<open>Path arithmetic (\<^verbatim>\<open>pathlib\<close>, POSIX flavour)\<close>

text \<open>
  A path is the tuple \<^verbatim>\<open>PurePath.parts\<close>. Splitting a string drops empty segments
  and \<^verbatim>\<open>.\<close> segments; a leading slash gives the root part \<^verbatim>\<open>/\<close>, exactly two
  leading slashes give \<^verbatim>\<open>//\<close>. Joining with an absolute path restarts from it.
\<close>

type_synonym bytes = string
type_synonym pure_path = "string list"

fun split_slash :: "string \<Rightarrow> string \<Rightarrow> string list" where
  "split_slash cur [] = [cur]"
| "split_slash cur (c # cs) =
     (if c = CHR ''/'' then cur # split_slash [] cs else split_slash (cur @ [c]) cs)"

fun root_of :: "string \<Rightarrow> pure_path" where
  "root_of (a # b # c # cs) =
     (if a = CHR ''/'' then (if b = CHR ''/'' \<and> c \<noteq> CHR ''/'' then [''//''] else [''/'']) else [])"
| "root_of [a, b] =
     (if a = CHR ''/'' then (if b = CHR ''/'' then [''//''] else [''/'']) else [])"
| "root_of [a] = (if a = CHR ''/'' then [''/''] else [])"
| "root_of [] = []"

definition parts :: "string \<Rightarrow> pure_path" where
  "parts s = root_of s @ filter (\<lambda>seg. seg \<noteq> [] \<and> seg \<noteq> ''.'') (split_slash [] s)"

definition is_absolute :: "pure_path \<Rightarrow> bool" where
  "is_absolute p = (case p of [] \<Rightarrow> False | r # _ \<Rightarrow> r = ''/'' \<or> r = ''//'')"

definition join :: "pure_path \<Rightarrow> pure_path \<Rightarrow> pure_path" where
  "join p q = (if is_absolute q then q else p @ q)"

definition joins :: "pure_path \<Rightarrow> string \<Rightarrow> pure_path" where
  "joins p seg = join p (parts seg)"

definition parent :: "pure_path \<Rightarrow> pure_path" where
  "parent p = (if is_absolute p \<and> length p = 1 then p else butlast p)"

subsection \<open>Class \<^verbatim>\<open>Plugina\<close>\<close>

record plugina =
  user :: string
  repo :: string
  name :: string
  branch :: string

datatype plugin_error =
    CannotDecipher string
  | EntryNotFound string
  | RequirementsFailed string
  | ExtensionInvalid

datatype exn =
    InvalidPluginError plugin_error
  | ExtensionError
  | ClientError
  | BadZipFile
  | OSError
  | ValueError
  | JSONDecodeError
  | UnicodeDecodeError
  | ModuleNotFoundError

type_synonym 'a res = "exn + 'a"

text \<open>\<^verbatim>\<open>__init__\<close>: a branch of \<^verbatim>\<open>None\<close> becomes \<^verbatim>\<open>"master"\<close>.\<close>

definition Plugina :: "string \<Rightarrow> string \<Rightarrow> string \<Rightarrow> string option \<Rightarrow> plugina" where
  "Plugina u r n b =
     \<lparr>user = u, repo = r, name = n, branch = (case b of None \<Rightarrow> ''master'' | Some x \<Rightarrow> x)\<rparr>"

definition url :: "plugina \<Rightarrow> string" where
  "url p = ''https://github.com/'' @ user p @ ''/'' @ repo p @ ''/archive/'' @ branch p @ ''.zip''"

definition link :: "plugina \<Rightarrow> string" where
  "link p = ''https://github.com/'' @ user p @ ''/'' @ repo p @ ''/tree/'' @ branch p @ ''/'' @ name p"

definition path :: "plugina \<Rightarrow> pure_path" where
  "path p = joins (joins (joins [''plugins''] (user p)) (repo p)) (name p @ ''-'' @ branch p)"

text \<open>
  \<^verbatim>\<open>Path(__file__).absolute().parent.parent\<close> is the directory the bot is installed in;
  it is the parameter \<open>base\<close>.
\<close>

definition abs_path :: "pure_path \<Rightarrow> plugina \<Rightarrow> pure_path" where
  "abs_path base p = join base (path p)"

definition cache_path :: "pure_path \<Rightarrow> plugina \<Rightarrow> pure_path" where
  "cache_path base p =
     joins (joins (joins base ''temp'') ''plugins-cache'')
       (user p @ ''-'' @ repo p @ ''-'' @ branch p @ ''.zip'')"

definition ext_string :: "plugina \<Rightarrow> string" where
  "ext_string p =
     ''plugins.'' @ user p @ ''.'' @ repo p @ ''.'' @ name p @ ''-'' @ branch p @ ''.'' @ name p"

definition str :: "plugina \<Rightarrow> string" where
  "str p = user p @ ''/'' @ repo p @ ''/'' @ name p @ ''@'' @ branch p"

text \<open>\<^verbatim>\<open>str.lower\<close>, on the ASCII letters.\<close>

definition lower_char :: "char \<Rightarrow> char" where
  "lower_char c =
     (if CHR ''A'' \<le> c \<and> c \<le> CHR ''Z'' then char_of (of_char c + (32::nat)) else c)"

definition lower :: "string \<Rightarrow> string" where
  "lower s = map lower_char s"

definition lt :: "plugina \<Rightarrow> plugina \<Rightarrow> bool" where
  "lt self other = (lower (name self) < lower (name other))"

text \<open>
  \<^verbatim>\<open>__hash__\<close> hashes the tuple of the four fields with Python's built-in hash, the
  parameter \<open>h\<close>; \<^verbatim>\<open>__eq__\<close> compares the two canonical strings. (The
  \<^verbatim>\<open>isinstance\<close> test is the type of \<open>other\<close>.)
\<close>

definition hash_tuple :: "plugina \<Rightarrow> string \<times> string \<times> string \<times> string" where
  "hash_tuple p = (user p, repo p, name p, branch p)"

definition hash :: "(string \<times> string \<times> string \<times> string \<Rightarrow> int) \<Rightarrow> plugina \<Rightarrow> int" where
  "hash h p = h (hash_tuple p)"

definition eq :: "plugina \<Rightarrow> plugina \<Rightarrow> bool" where
  "eq self other = (str self = str other)"

text \<open>
  \<^verbatim>\<open>from_string\<close> matches one of two regular expressions,
  \<^verbatim>\<open>^(.+?)/(.+?)/(.+?)(?:@(.+?))?$\<close> and, when strict, \<^verbatim>\<open>^(.+?)/(.+?)/(.+?)@(.+?)$\<close>.
  A lazy group \<^verbatim>\<open>(.+?)\<close> followed by a literal takes the shortest non-empty prefix
  after which the literal stands and the rest of the pattern still matches: that is
  \<open>lazy_split\<close>, which tries the candidates from the shortest on, as the backtracking
  matcher does. The dot matches no newline and \<^verbatim>\<open>$\<close> also matches before one final
  newline, so one final newline is dropped and any other newline makes the match fail.
\<close>

fun lazy_split :: "char \<Rightarrow> (string \<Rightarrow> bool) \<Rightarrow> string \<Rightarrow> string \<Rightarrow> (string \<times> string) option" where
  "lazy_split c ok pre [] = None"
| "lazy_split c ok pre (x # xs) =
     (if x = c \<and> pre \<noteq> [] \<and> ok xs then Some (pre, xs) else lazy_split c ok (pre @ [x]) xs)"

definition name_branch :: "bool \<Rightarrow> string \<Rightarrow> (string \<times> string option) option" where
  "name_branch strict w =
     (case lazy_split CHR ''@'' (\<lambda>b. b \<noteq> []) [] w of
        Some (n, b) \<Rightarrow> Some (n, Some b)
      | None \<Rightarrow> if strict \<or> w = [] then None else Some (w, None))"

definition repo_rest :: "bool \<Rightarrow> string \<Rightarrow> (string \<times> string) option" where
  "repo_rest strict t = lazy_split CHR ''/'' (\<lambda>w. name_branch strict w \<noteq> None) [] t"

definition chomp :: "string \<Rightarrow> string" where
  "chomp s = (if s \<noteq> [] \<and> last s = CHR 0x0A then butlast s else s)"

definition from_string :: "string \<Rightarrow> bool \<Rightarrow> plugina res" where
  "from_string s strict =
     (let t = chomp s in
      if CHR 0x0A \<in> set t then Inl (InvalidPluginError (CannotDecipher s))
      else
        (case lazy_split CHR ''/'' (\<lambda>r. repo_rest strict r \<noteq> None) [] t of
           None \<Rightarrow> Inl (InvalidPluginError (CannotDecipher s))
         | Some (u, r) \<Rightarrow>
             (case repo_rest strict r of
                None \<Rightarrow> Inl (InvalidPluginError (CannotDecipher s))
              | Some (rp, w) \<Rightarrow>
                  (case name_branch strict w of
                     None \<Rightarrow> Inl (InvalidPluginError (CannotDecipher s))
                   | Some (n, b) \<Rightarrow> Inr (Plugina u rp n b)))))"

subsection \<open>The cog, the bot and the world around them\<close>

text \<open>
  A row of the registry document. \<^verbatim>\<open>details.get("branch")\<close> and
  \<^verbatim>\<open>details.get("bot_version", False)\<close> are options; the fields used for display only
  are kept as one string.
\<close>

record details =
  repository :: string
  branch_opt :: "string option"
  bot_version :: "string option"
  description :: string

text \<open>
  An entry of an archive: its \<^verbatim>\<open>filename\<close> and the data stored for it. What a reader
  gets out of the entry is an answer of the world (\<open>zip_open\<close> below); for an intact
  archive it is this data.
\<close>

record zip_info =
  filename :: string
  content :: bytes

text \<open>What a command reports to the user: one constructor for each embed description.\<close>

datatype report =
    StillLoading
  | VersionTooLow string
  | InvalidName
  | AlreadyInstalled
  | DupeCog
  | Downloading string
  | FailedDownload
  | Installed
  | InstalledNotEnabled
  | NotInstalled
  | Uninstalled
  | Updated string
  | NotEnabled
  | NoneLoaded
  | LoadedPlugins "string set"

text \<open>
  The answers of the outside world. \<open>base\<close> is the installation directory;
  \<open>http_get u\<close> is the body served at \<open>u\<close>, \<open>None\<close> when the request raises;
  \<open>infolist b\<close> is the entry list of the archive \<open>b\<close>, \<open>None\<close> when \<open>b\<close> is no
  archive; \<open>zip_open i\<close> is what reading the entry \<open>i\<close> gives: \<open>Inl x\<close> when
  \<^verbatim>\<open>zipf.open(info)\<close> raises \<open>x\<close>, otherwise the bytes it delivers and the exception
  that ends the reading early, if one does (a checksum that does not match);
  \<open>disk_space\<close> bounds how many bytes one write can store before it raises
  (\<open>None\<close>: no bound); \<open>pip r\<close> is what the installer run on the manifest \<open>r\<close> writes to
  its standard output and standard error, and its exit code; \<open>decode b\<close> is
  \<^verbatim>\<open>b.decode()\<close>, \<open>None\<close> when the bytes are no UTF-8 and the call raises;
  \<open>findable x\<close> tells whether the import machinery finds the packages above the
  extension \<open>x\<close> and \<open>importable x\<close> whether the host can then import and set up
  the extension; \<open>host_version\<close> is \<^verbatim>\<open>bot.version\<close> and \<open>parse_version\<close> is
  the function of that name of \<^verbatim>\<open>pkg_resources\<close>.
\<close>

record 'v env =
  base :: pure_path
  http_get :: "string \<Rightarrow> bytes option"
  infolist :: "bytes \<Rightarrow> zip_info list option"
  zip_open :: "zip_info \<Rightarrow> exn + bytes \<times> exn option"
  disk_space :: "nat option"
  pip :: "pure_path \<Rightarrow> bytes \<times> bytes \<times> int"
  decode :: "bytes \<Rightarrow> string option"
  findable :: "string \<Rightarrow> bool"
  importable :: "string \<Rightarrow> bool"
  json_loads :: "bytes \<Rightarrow> (string \<rightharpoonup> details) option"
  host_version :: 'v
  parse_version :: "string \<Rightarrow> 'v"
  user_site :: "pure_path option"

text \<open>
  The state: the three attributes of the cog; of the bot, the configured plugin list, what
  \<^verbatim>\<open>config.update()\<close> last saved, the \<^verbatim>\<open>enable_plugins\<close> switch, the loaded
  extensions and the cog names; the directories on disk and the contents of its regular
  files, both under resolved paths; and what has been
  observed from outside: the URLs requested, the installer subprocesses spawned (by their
  manifest), the entries put in front of \<^verbatim>\<open>sys.path\<close> and the reports sent.
\<close>

record cog =
  registry :: "string \<rightharpoonup> details"
  loaded_plugins :: "plugina set"
  ready_event :: bool
  config_plugins :: "string list"
  saved_plugins :: "string list"
  enable_plugins :: bool
  extensions :: "string set"
  cogs :: "string set"
  dirs :: "pure_path set"
  contents :: "pure_path \<rightharpoonup> bytes"
  requests :: "string list"
  spawned :: "pure_path list"
  sys_path :: "pure_path list"
  sent :: "report list"

definition send :: "report \<Rightarrow> cog \<Rightarrow> cog" where
  "send r s = s\<lparr>sent := sent s @ [r]\<rparr>"

definition config_update :: "cog \<Rightarrow> cog" where
  "config_update s = s\<lparr>saved_plugins := config_plugins s\<rparr>"

subsection \<open>The disk\<close>

text \<open>
  The operating system resolves a path part by part from the left: \<^verbatim>\<open>..\<close> steps to
  the parent (the root being its own), any other part steps down. \<open>visited\<close> lists the
  places the steps reach and \<open>resolve\<close> is the last of them. A path names what its last
  step reaches, provided every step before it ended in a directory: that is \<open>walk\<close>.
  The disk holds directories and regular files only, no symbolic links.
\<close>

definition step :: "pure_path \<Rightarrow> string \<Rightarrow> pure_path" where
  "step cur x = (if x = ''..'' then parent cur else cur @ [x])"

fun visited :: "pure_path \<Rightarrow> pure_path \<Rightarrow> pure_path list" where
  "visited cur [] = []"
| "visited cur (x # xs) = step cur x # visited (step cur x) xs"

definition resolve :: "pure_path \<Rightarrow> pure_path" where
  "resolve p = last ([] # visited [] p)"

fun walk :: "pure_path set \<Rightarrow> pure_path \<Rightarrow> pure_path \<Rightarrow> pure_path option" where
  "walk ds cur [] = Some cur"
| "walk ds cur [x] = Some (step cur x)"
| "walk ds cur (x # y # ys) =
     (if step cur x \<in> ds then walk ds (step cur x) (y # ys) else None)"

text \<open>\<^verbatim>\<open>Path.exists\<close>: the path leads to a directory or to a regular file.\<close>

definition exists :: "cog \<Rightarrow> pure_path \<Rightarrow> bool" where
  "exists s p =
     (case walk (dirs s) [] p of
        None \<Rightarrow> False
      | Some q \<Rightarrow> q \<in> dirs s \<or> contents s q \<noteq> None)"

text \<open>The regular file at the place a path resolves to, if there is one.\<close>

definition files :: "cog \<Rightarrow> pure_path \<Rightarrow> bytes option" where
  "files s p = contents s (resolve p)"

text \<open>
  \<^verbatim>\<open>mkdir(parents=True, exist_ok=True)\<close> makes every directory the path steps
  through. \<open>makedirs\<close> is the call as it is: it raises at the first step that reaches a
  regular file, the directories before it made. \<open>mkdir_parents\<close> is the state the call
  leaves when it does not raise.
\<close>

definition mkdir_parents :: "pure_path \<Rightarrow> cog \<Rightarrow> cog" where
  "mkdir_parents p s = s\<lparr>dirs := dirs s \<union> set (visited [] p)\<rparr>"

fun makedirs_from :: "pure_path \<Rightarrow> pure_path \<Rightarrow> cog \<Rightarrow> unit res \<times> cog" where
  "makedirs_from cur [] s = (Inr (), s)"
| "makedirs_from cur (x # xs) s =
     (if contents s (step cur x) \<noteq> None then (Inl OSError, s)
      else makedirs_from (step cur x) xs (s\<lparr>dirs := insert (step cur x) (dirs s)\<rparr>))"

definition makedirs :: "pure_path \<Rightarrow> cog \<Rightarrow> unit res \<times> cog" where
  "makedirs p s = makedirs_from [] p s"

text \<open>\<^verbatim>\<open>open("rb")\<close> and reading: only a regular file can be read.\<close>

definition open_rb :: "pure_path \<Rightarrow> cog \<Rightarrow> bytes res \<times> cog" where
  "open_rb p s =
     (case walk (dirs s) [] p of
        None \<Rightarrow> (Inl OSError, s)
      | Some q \<Rightarrow> (case contents s q of None \<Rightarrow> (Inl OSError, s) | Some b \<Rightarrow> (Inr b, s)))"

text \<open>
  \<^verbatim>\<open>open("wb")\<close> followed by one \<^verbatim>\<open>write\<close>: opening truncates the file, writing
  stores the bytes the disk has room for and raises when some are left over. \<open>write_wb\<close>
  is the pair of calls where the path can be opened; \<open>copy_to\<close> is the pair as it is,
  where opening raises when the path leads nowhere or to a directory.
\<close>

definition stored :: "nat option \<Rightarrow> bytes \<Rightarrow> bytes" where
  "stored room raw = (case room of None \<Rightarrow> raw | Some k \<Rightarrow> take k raw)"

definition write_wb :: "nat option \<Rightarrow> pure_path \<Rightarrow> bytes \<Rightarrow> cog \<Rightarrow> unit res \<times> cog" where
  "write_wb room p raw s =
     (let s1 = s\<lparr>contents := (contents s)(resolve p \<mapsto> [])\<rparr>;
          s2 = s1\<lparr>contents := (contents s1)(resolve p \<mapsto> stored room raw)\<rparr>
      in if stored room raw = raw then (Inr (), s2) else (Inl OSError, s2))"

definition copy_to :: "nat option \<Rightarrow> pure_path \<Rightarrow> bytes \<Rightarrow> cog \<Rightarrow> unit res \<times> cog" where
  "copy_to room p raw s =
     (case walk (dirs s) [] p of
        None \<Rightarrow> (Inl OSError, s)
      | Some q \<Rightarrow> if q \<in> dirs s then (Inl OSError, s) else write_wb room p raw s)"

subsection \<open>\<^verbatim>\<open>Plugin.download_plugin\<close>\<close>

text \<open>
  Lines 175 to 183: the request, then the write to the cache path. The log of requests
  grows before the answer is known. The cache directory is taken to be one that can be
  made and the cache path one that can be opened.
\<close>

definition fetch_archive :: "'v env \<Rightarrow> plugina \<Rightarrow> cog \<Rightarrow> bytes res \<times> cog" where
  "fetch_archive e plugin s =
     (let s1 = s\<lparr>requests := requests s @ [url plugin]\<rparr> in
      case http_get e (url plugin) of
        None \<Rightarrow> (Inl ClientError, s1)
      | Some raw \<Rightarrow>
          (let s2 = (if \<not> exists s1 (parent (cache_path (base e) plugin))
                     then mkdir_parents (parent (cache_path (base e) plugin)) s1 else s1)
           in case write_wb (disk_space e) (cache_path (base e) plugin) raw s2 of
                (Inl x, s3) \<Rightarrow> (Inl x, s3)
              | (Inr _, s3) \<Rightarrow> (Inr raw, s3)))"

definition is_dir :: "zip_info \<Rightarrow> bool" where
  "is_dir info = (filename info \<noteq> [] \<and> last (filename info) = CHR ''/'')"

text \<open>The test of line 188.\<close>

definition selected :: "string \<Rightarrow> zip_info \<Rightarrow> bool" where
  "selected nm info =
     (3 \<le> length (parts (filename info)) \<and> parts (filename info) ! 1 = nm)"

definition plugin_path :: "pure_path \<Rightarrow> zip_info \<Rightarrow> pure_path" where
  "plugin_path ap info = join ap (drop 2 (parts (filename info)))"

text \<open>
  Lines 189 to 195, for one entry: a directory entry makes its directory; a file entry
  makes the directory above it, opens the entry, opens the target for writing and copies.
  Each step can raise: the directories on a clash with a file on disk, the entry when it
  cannot be read, the target when it is a directory or lies below a missing one, the copy
  when the disk is full or the entry ends early.
\<close>

definition extract_one :: "'v env \<Rightarrow> pure_path \<Rightarrow> zip_info \<Rightarrow> cog \<Rightarrow> unit res \<times> cog" where
  "extract_one e ap info s =
     (if is_dir info then makedirs (plugin_path ap info) s
      else
        (case makedirs (parent (plugin_path ap info)) s of
           (Inl x, s1) \<Rightarrow> (Inl x, s1)
         | (Inr _, s1) \<Rightarrow>
             (case zip_open e info of
                Inl x \<Rightarrow> (Inl x, s1)
              | Inr (raw, stop) \<Rightarrow>
                  (case copy_to (disk_space e) (plugin_path ap info) raw s1 of
                     (Inl x, s2) \<Rightarrow> (Inl x, s2)
                   | (Inr _, s2) \<Rightarrow>
                       (case stop of None \<Rightarrow> (Inr (), s2) | Some x \<Rightarrow> (Inl x, s2))))))"

text \<open>The bytes that reading an entry delivers, none when the entry cannot be opened.\<close>

definition delivered :: "'v env \<Rightarrow> zip_info \<Rightarrow> bytes" where
  "delivered e info = (case zip_open e info of Inl x \<Rightarrow> [] | Inr (raw, stop) \<Rightarrow> raw)"

text \<open>
  The loop of lines 186 to 195 over \<^verbatim>\<open>zipf.infolist()\<close>: an exception of one entry
  leaves it.
\<close>

fun extract_all ::
    "'v env \<Rightarrow> pure_path \<Rightarrow> string \<Rightarrow> zip_info list \<Rightarrow> cog \<Rightarrow> unit res \<times> cog" where
  "extract_all e ap nm [] s = (Inr (), s)"
| "extract_all e ap nm (info # infos) s =
     (if selected nm info then
        (case extract_one e ap info s of
           (Inl x, s1) \<Rightarrow> (Inl x, s1)
         | (Inr _, s1) \<Rightarrow> extract_all e ap nm infos s1)
      else extract_all e ap nm infos s)"

text \<open>Lines 170 to 183: the bytes of the archive, from the cache or from the network.\<close>

definition open_archive :: "'v env \<Rightarrow> plugina \<Rightarrow> bool \<Rightarrow> cog \<Rightarrow> bytes res \<times> cog" where
  "open_archive e plugin force s =
     (if exists s (cache_path (base e) plugin) \<and> \<not> force
      then open_rb (cache_path (base e) plugin) s
      else fetch_archive e plugin s)"

text \<open>
  \<^verbatim>\<open>download_plugin\<close>. The install directory of line 168 is taken to be one that
  can be made.
\<close>

definition download_plugin :: "'v env \<Rightarrow> plugina \<Rightarrow> bool \<Rightarrow> cog \<Rightarrow> unit res \<times> cog" where
  "download_plugin e plugin force s =
     (if exists s (abs_path (base e) plugin) \<and> \<not> force then (Inr (), s)
      else
        (case open_archive e plugin force (mkdir_parents (abs_path (base e) plugin) s) of
           (Inl x, s2) \<Rightarrow> (Inl x, s2)
         | (Inr plugin_io, s2) \<Rightarrow>
             (case infolist e plugin_io of
                None \<Rightarrow> (Inl BadZipFile, s2)
              | Some infos \<Rightarrow>
                  extract_all e (abs_path (base e) plugin) (name plugin) infos s2)))"

subsection \<open>\<^verbatim>\<open>Plugin.load_plugin\<close>\<close>

text \<open>
  The host's \<^verbatim>\<open>load_extension\<close> and \<^verbatim>\<open>unload_extension\<close>. Loading raises an
  \<^verbatim>\<open>ExtensionError\<close> when the extension is already loaded; then
  \<^verbatim>\<open>find_spec\<close> lets a \<^verbatim>\<open>ModuleNotFoundError\<close> through when a package above
  the extension is not found; and an extension that is not found, cannot be imported or
  cannot be set up is an \<^verbatim>\<open>ExtensionError\<close> again. Unloading raises an
  \<^verbatim>\<open>ExtensionError\<close> when the extension is not loaded.
\<close>

definition load_extension :: "'v env \<Rightarrow> string \<Rightarrow> cog \<Rightarrow> unit res \<times> cog" where
  "load_extension e x s =
     (if x \<in> extensions s then (Inl ExtensionError, s)
      else if \<not> findable e x then (Inl ModuleNotFoundError, s)
      else if \<not> importable e x then (Inl ExtensionError, s)
      else (Inr (), s\<lparr>extensions := insert x (extensions s)\<rparr>))"

definition unload_extension :: "string \<Rightarrow> cog \<Rightarrow> unit res \<times> cog" where
  "unload_extension x s =
     (if x \<notin> extensions s then (Inl ExtensionError, s)
      else (Inr (), s\<lparr>extensions := extensions s - {x}\<rparr>))"

text \<open>
  Lines 205 to 235: the installer, run when the manifest exists. What it wrote to its
  standard output is decoded for the log when there is any, and what it wrote to its
  standard error is decoded for the log and for the error. The shell that runs the
  installer is taken to start.
\<close>

definition install_requirements :: "'v env \<Rightarrow> pure_path \<Rightarrow> cog \<Rightarrow> unit res \<times> cog" where
  "install_requirements e req_txt s =
     (if exists s req_txt then
        (let s1 = s\<lparr>spawned := spawned s @ [req_txt]\<rparr> in
         case pip e req_txt of
           (out, err, code) \<Rightarrow>
             if out \<noteq> [] \<and> decode e out = None then (Inl UnicodeDecodeError, s1)
             else if err \<noteq> [] then
               (case decode e err of
                  None \<Rightarrow> (Inl UnicodeDecodeError, s1)
                | Some text \<Rightarrow> (Inl (InvalidPluginError (RequirementsFailed text)), s1))
             else (case user_site e of
                     None \<Rightarrow> (Inr (), s1)
                   | Some u \<Rightarrow> (Inr (), s1\<lparr>sys_path := u # sys_path s1\<rparr>)))
      else (Inr (), s))"

definition load_plugin :: "'v env \<Rightarrow> plugina \<Rightarrow> cog \<Rightarrow> unit res \<times> cog" where
  "load_plugin e plugin s =
     (if \<not> exists s (joins (abs_path (base e) plugin) (name plugin @ ''.py''))
      then (Inl (InvalidPluginError (EntryNotFound (name plugin @ ''.py''))), s)
      else
        (case install_requirements e (joins (abs_path (base e) plugin) ''requirements.txt'') s of
           (Inl x, s1) \<Rightarrow> (Inl x, s1)
         | (Inr _, s1) \<Rightarrow>
             (case load_extension e (ext_string plugin) s1 of
                (Inl x, s2) \<Rightarrow>
                  (if x = ExtensionError then Inl (InvalidPluginError ExtensionInvalid) else Inl x, s2)
              | (Inr _, s2) \<Rightarrow>
                  (Inr (), s2\<lparr>loaded_plugins := insert plugin (loaded_plugins s2)\<rparr>))))"

text \<open>
  \<^verbatim>\<open>loaded_plugins\<close> is a Python set of \<^verbatim>\<open>Plugina\<close> objects. A lookup in it
  compares the hashes first, and these are the hashes of the field tuples; it is modelled
  by the set of records, where two members are the same when their four fields are.
\<close>

subsection \<open>The registry\<close>

definition registry_url :: string where
  "registry_url = ''https://raw.githubusercontent.com/kyb3r/modmail/master/plugins/registry.json''"

definition vregistry_url :: string where
  "vregistry_url = ''http://vincysuper07.cf/bot/plugin.json''"

definition populate_registry :: "'v env \<Rightarrow> cog \<Rightarrow> unit res \<times> cog" where
  "populate_registry e s =
     (let s1 = s\<lparr>requests := requests s @ [registry_url]\<rparr> in
      case http_get e registry_url of
        None \<Rightarrow> (Inl ClientError, s1)
      | Some body \<Rightarrow>
          (case json_loads e body of
             None \<Rightarrow> (Inl JSONDecodeError, s1)
           | Some doc \<Rightarrow> (Inr (), s1\<lparr>registry := doc\<rparr>)))"

definition populate_vregistry :: "'v env \<Rightarrow> cog \<Rightarrow> unit res \<times> cog" where
  "populate_vregistry e s =
     (let s1 = s\<lparr>requests := requests s @ [vregistry_url]\<rparr> in
      case http_get e vregistry_url of
        None \<Rightarrow> (Inl ClientError, s1)
      | Some body \<Rightarrow>
          (case json_loads e body of
             None \<Rightarrow> (Inl JSONDecodeError, s1)
           | Some doc \<Rightarrow> (Inr (), s1\<lparr>registry := doc\<rparr>)))"

subsection \<open>\<^verbatim>\<open>Plugin.parse_user_input\<close>\<close>

text \<open>\<^verbatim>\<open>split("/", maxsplit=1)\<close> unpacked into two names: no slash is a \<^verbatim>\<open>ValueError\<close>.\<close>

definition split_once :: "string \<Rightarrow> (string \<times> string) option" where
  "split_once s =
     (if CHR ''/'' \<in> set s
      then Some (takeWhile (\<lambda>c. c \<noteq> CHR ''/'') s, tl (dropWhile (\<lambda>c. c \<noteq> CHR ''/'') s))
      else None)"

text \<open>
  \<^verbatim>\<open>details.get("bot_version", False)\<close>, where an absent version is as false as an
  empty one, and the test of line 268: a required version that is true and above the
  host's.
\<close>

definition required_version :: "details \<Rightarrow> string" where
  "required_version d = (case bot_version d of None \<Rightarrow> [] | Some v \<Rightarrow> v)"

definition too_low :: "'v::ord env \<Rightarrow> details \<Rightarrow> bool" where
  "too_low e d =
     (required_version d \<noteq> [] \<and> host_version e < parse_version e (required_version d))"

definition parse_user_input ::
    "'v::ord env \<Rightarrow> string \<Rightarrow> bool \<Rightarrow> cog \<Rightarrow> plugina option res \<times> cog" where
  "parse_user_input e plugin_name check_version s =
     (if \<not> ready_event s then (Inr None, send StillLoading s)
      else
        (case registry s plugin_name of
           Some d \<Rightarrow>
             (case split_once (repository d) of
                None \<Rightarrow> (Inl ValueError, s)
              | Some (u, r) \<Rightarrow>
                  if check_version \<and> too_low e d
                  then (Inr None, send (VersionTooLow (required_version d)) s)
                  else (Inr (Some (Plugina u r plugin_name (branch_opt d))), s))
         | None \<Rightarrow>
             (case from_string plugin_name False of
                Inl _ \<Rightarrow> (Inr None, send InvalidName s)
              | Inr plugin \<Rightarrow> (Inr (Some plugin), s))))"

subsection \<open>The commands\<close>

text \<open>
  \<^verbatim>\<open>plugins_add\<close>. Editing the progress message is one more report. A failed load is
  reported with the words of a failed download, as in the source.
\<close>

definition plugins_add :: "'v::ord env \<Rightarrow> string \<Rightarrow> cog \<Rightarrow> unit res \<times> cog" where
  "plugins_add e plugin_name s =
     (case parse_user_input e plugin_name True s of
        (Inl x, s1) \<Rightarrow> (Inl x, s1)
      | (Inr None, s1) \<Rightarrow> (Inr (), s1)
      | (Inr (Some plugin), s1) \<Rightarrow>
          if str plugin \<in> set (config_plugins s1) then (Inr (), send AlreadyInstalled s1)
          else if name plugin \<in> cogs s1 then (Inr (), send DupeCog s1)
          else
            (case download_plugin e plugin True (send (Downloading (link plugin)) s1) of
               (Inl _, s3) \<Rightarrow> (Inr (), send FailedDownload s3)
             | (Inr _, s3) \<Rightarrow>
                 (let s4 = config_update (s3\<lparr>config_plugins := config_plugins s3 @ [str plugin]\<rparr>)
                  in if enable_plugins s4 then
                       (case load_plugin e plugin s4 of
                          (Inl _, s5) \<Rightarrow> (Inr (), send FailedDownload s5)
                        | (Inr _, s5) \<Rightarrow> (Inr (), send Installed s5))
                     else (Inr (), send InstalledNotEnabled s4))))"




text \<open>
  \<^verbatim>\<open>update_plugin\<close>: neither the download nor the load stands in a \<^verbatim>\<open>try\<close>; only
  the unload does.
\<close>

definition update_plugin :: "'v::ord env \<Rightarrow> string \<Rightarrow> cog \<Rightarrow> unit res \<times> cog" where
  "update_plugin e plugin_name s =
     (case parse_user_input e plugin_name True s of
        (Inl x, s1) \<Rightarrow> (Inl x, s1)
      | (Inr None, s1) \<Rightarrow> (Inr (), s1)
      | (Inr (Some plugin), s1) \<Rightarrow>
          if str plugin \<notin> set (config_plugins s1) then (Inr (), send NotInstalled s1)
          else
            (case download_plugin e plugin True s1 of
               (Inl x, s2) \<Rightarrow> (Inl x, s2)
             | (Inr _, s2) \<Rightarrow>
                 (case (if enable_plugins s2
                        then load_plugin e plugin (snd (unload_extension (ext_string plugin) s2))
                        else (Inr (), s2)) of
                    (Inl x, s3) \<Rightarrow> (Inl x, s3)
                  | (Inr _, s3) \<Rightarrow> (Inr (), send (Updated (name plugin)) s3))))"

text \<open>The loop of \<^verbatim>\<open>plugins_update\<close> over the configured plugins: an exception leaves it.\<close>

fun update_each :: "'v::ord env \<Rightarrow> string list \<Rightarrow> cog \<Rightarrow> unit res \<times> cog" where
  "update_each e [] s = (Inr (), s)"
| "update_each e (plugin_name # rest) s =
     (case update_plugin e plugin_name s of
        (Inl x, s1) \<Rightarrow> (Inl x, s1)
      | (Inr _, s1) \<Rightarrow> update_each e rest s1)"

definition plugins_update :: "'v::ord env \<Rightarrow> string option \<Rightarrow> cog \<Rightarrow> unit res \<times> cog" where
  "plugins_update e plugin_name s =
     (case plugin_name of
        None \<Rightarrow> update_each e (config_plugins s) s
      | Some n \<Rightarrow> update_plugin e n s)"

text \<open>
  \<^verbatim>\<open>plugins_loaded\<close>. The pages of the listing are the set of the canonical strings of
  the loaded plugins.
\<close>

definition plugins_loaded :: "cog \<Rightarrow> cog" where
  "plugins_loaded s =
     (if \<not> enable_plugins s then send NotEnabled s
      else if \<not> ready_event s then send StillLoading s
      else if loaded_plugins s = {} then send NoneLoaded s
      else send (LoadedPlugins (str ` loaded_plugins s)) s)"

subsection \<open>Start-up\<close>

text \<open>
  \<^verbatim>\<open>initial_load_plugins\<close> is followed state by state, since commands arrive while
  it runs. A turn of its first loop removes from the configuration a name the strict
  grammar rejects. A turn of its second loop does the same, puts the canonical form of a
  name the lenient grammar accepts back, and downloads and loads the plugin, an exception
  of either step ending the turn. \<open>turns\<close> strings the states of the turns of a loop
  together. After the two loops the event is set, and then the configuration saved.
\<close>

definition first_turn :: "string \<Rightarrow> cog \<Rightarrow> cog list" where
  "first_turn plugin_name s =
     (case from_string plugin_name True of
        Inr _ \<Rightarrow> [s]
      | Inl _ \<Rightarrow> [s\<lparr>config_plugins := remove1 plugin_name (config_plugins s)\<rparr>])"

definition download_and_load :: "'v env \<Rightarrow> plugina \<Rightarrow> cog \<Rightarrow> cog list" where
  "download_and_load e plugin s =
     (case download_plugin e plugin False s of
        (Inl _, s1) \<Rightarrow> [s1]
      | (Inr _, s1) \<Rightarrow> [s1, snd (load_plugin e plugin s1)])"

definition second_turn :: "'v env \<Rightarrow> string \<Rightarrow> cog \<Rightarrow> cog list" where
  "second_turn e vplugin_name s =
     (case from_string vplugin_name True of
        Inr plugin \<Rightarrow> download_and_load e plugin s
      | Inl _ \<Rightarrow>
          (let s1 = s\<lparr>config_plugins := remove1 vplugin_name (config_plugins s)\<rparr> in
           case from_string vplugin_name False of
             Inl _ \<Rightarrow> [s1]
           | Inr plugin \<Rightarrow>
               (let s2 = s1\<lparr>config_plugins := config_plugins s1 @ [str plugin]\<rparr>
                in s2 # download_and_load e plugin s2)))"

fun turns :: "('a \<Rightarrow> cog \<Rightarrow> cog list) \<Rightarrow> 'a list \<Rightarrow> cog \<Rightarrow> cog list" where
  "turns f [] s = []"
| "turns f (x # xs) s = f x s @ turns f xs (last (s # f x s))"

definition loop_states :: "'v env \<Rightarrow> cog \<Rightarrow> cog list" where
  "loop_states e s =
     (let t1 = s # turns first_turn (config_plugins s) s;
          t2 = turns (second_turn e) (config_plugins (last t1)) (last t1)
      in t1 @ t2)"

definition initial_load_plugins_states :: "'v env \<Rightarrow> cog \<Rightarrow> cog list" where
  "initial_load_plugins_states e s =
     loop_states e s @
     [(last (loop_states e s))\<lparr>ready_event := True\<rparr>,
      config_update ((last (loop_states e s))\<lparr>ready_event := True\<rparr>)]"

definition initial_load_plugins :: "'v env \<Rightarrow> cog \<Rightarrow> cog" where
  "initial_load_plugins e s = last (initial_load_plugins_states e s)"

text \<open>
  \<^verbatim>\<open>__init__\<close> resets the three attributes and creates the tasks; \<open>startup\<close> runs
  the tasks it created one after the other, in the order of their creation. An exception
  of a task ends that task. The bot is taken to connect, so that the
  \<^verbatim>\<open>wait_for_connected\<close> the pass begins with returns.
\<close>

definition init :: "cog \<Rightarrow> cog" where
  "init host = host\<lparr>registry := Map.empty, loaded_plugins := {}, ready_event := False\<rparr>"

definition startup :: "'v env \<Rightarrow> cog \<Rightarrow> cog" where
  "startup e host =
     (let s0 = init host;
          s1 = snd (populate_registry e s0);
          s2 = snd (populate_vregistry e s1)
      in if enable_plugins s2 then initial_load_plugins e s2 else s2)"

subsection \<open>A small world to run the operations in\<close>

text \<open>
  A bot installed in \<^verbatim>\<open>/bot\<close> with nothing configured and nothing on disk, and a
  network that serves two registry documents and six archives. The repository
  \<^verbatim>\<open>u/r\<close> holds the plugins \<^verbatim>\<open>n\<close> and \<^verbatim>\<open>m\<close>; the repositories
  \<^verbatim>\<open>u/ra\<close>, \<^verbatim>\<open>u/rb\<close> and \<^verbatim>\<open>u/rc\<close> hold one plugin each, and the second of
  them comes with a manifest. In the archive of \<^verbatim>\<open>u/rd\<close> an entry of the plugin
  \<^verbatim>\<open>d\<close> climbs out of the install directory, and in the archive of \<^verbatim>\<open>u/rk\<close>
  the plugin \<^verbatim>\<open>k\<close> has a file and a directory of one name. Every byte string
  decodes to itself. Versions are lists of numbers in lexicographic order.
\<close>

definition fresh_host :: cog where
  "fresh_host =
     \<lparr>registry = Map.empty, loaded_plugins = {}, ready_event = False,
      config_plugins = [], saved_plugins = [], enable_plugins = True, extensions = {},
      cogs = {}, dirs = {[''/''], [''/'', ''bot'']}, contents = Map.empty, requests = [],
      spawned = [],
      sys_path = [], sent = []\<rparr>"

definition served :: "string \<Rightarrow> bytes option" where
  "served u =
     (if u = registry_url then Some ''official''
      else if u = vregistry_url then Some ''alternate''
      else if u = ''https://github.com/u/r/archive/master.zip'' then Some ''zip-r''
      else if u = ''https://github.com/u/ra/archive/master.zip'' then Some ''zip-a''
      else if u = ''https://github.com/u/rb/archive/master.zip'' then Some ''zip-b''
      else if u = ''https://github.com/u/rc/archive/master.zip'' then Some ''zip-c''
      else if u = ''https://github.com/u/rd/archive/master.zip'' then Some ''zip-d''
      else if u = ''https://github.com/u/rk/archive/master.zip'' then Some ''zip-k''
      else None)"

definition unzipped :: "bytes \<Rightarrow> zip_info list option" where
  "unzipped b =
     (if b = ''zip-r'' then
        Some [\<lparr>filename = ''r-master/'', content = []\<rparr>,
              \<lparr>filename = ''r-master/README.md'', content = ''readme''\<rparr>,
              \<lparr>filename = ''r-master/n/'', content = []\<rparr>,
              \<lparr>filename = ''r-master/n/n.py'', content = ''code of n''\<rparr>,
              \<lparr>filename = ''r-master/m/'', content = []\<rparr>,
              \<lparr>filename = ''r-master/m/m.py'', content = ''code of m''\<rparr>]
      else if b = ''zip-a'' then Some [\<lparr>filename = ''ra-master/a/a.py'', content = ''code of a''\<rparr>]
      else if b = ''zip-b'' then
        Some [\<lparr>filename = ''rb-master/b/b.py'', content = ''code of b''\<rparr>,
              \<lparr>filename = ''rb-master/b/requirements.txt'', content = ''somelib''\<rparr>]
      else if b = ''zip-c'' then Some [\<lparr>filename = ''rc-master/c/c.py'', content = ''code of c''\<rparr>]
      else if b = ''zip-d'' then
        Some [\<lparr>filename = ''rd-master/d/d.py'', content = ''code of d''\<rparr>,
              \<lparr>filename = ''rd-master/d/sub/../../../../escaped.txt'', content = ''escaped''\<rparr>]
      else if b = ''zip-k'' then
        Some [\<lparr>filename = ''rk-master/k/data'', content = ''a file''\<rparr>,
              \<lparr>filename = ''rk-master/k/data/'', content = []\<rparr>,
              \<lparr>filename = ''rk-master/k/k.py'', content = ''code of k''\<rparr>]
      else None)"

definition documents :: "bytes \<Rightarrow> (string \<rightharpoonup> details) option" where
  "documents b =
     (if b = ''official'' then
        Some [''old'' \<mapsto> \<lparr>repository = ''u/r'', branch_opt = None, bot_version = None,
                             description = ''only in the official registry''\<rparr>]
      else if b = ''alternate'' then
        Some [''newer'' \<mapsto> \<lparr>repository = ''u/r'', branch_opt = None,
                               bot_version = Some ''9.0.0'', description = ''needs a newer bot''\<rparr>]
      else None)"

definition hub :: "nat list env" where
  "hub =
     \<lparr>base = [''/'', ''bot''], http_get = served, infolist = unzipped,
      zip_open = (\<lambda>i. Inr (content i, None)), disk_space = None,
      pip = (\<lambda>r. ([], [], 0)), decode = Some, findable = (\<lambda>x. True),
      importable = (\<lambda>x. True), json_loads = documents,
      host_version = [3, 3, 0],
      parse_version = (\<lambda>v. if v = ''9.0.0'' then [9, 0, 0] else []),
      user_site = None\<rparr>"

text \<open>The bot after start-up, with plugins enabled and with \<^verbatim>\<open>ENABLE_PLUGINS=false\<close>.\<close>

definition started :: cog where
  "started = startup hub fresh_host"

definition started_disabled :: cog where
  "started_disabled = startup hub (fresh_host\<lparr>enable_plugins := False\<rparr>)"

text \<open>The bot after \<^verbatim>\<open>plugins add u/r/n\<close>.\<close>

definition with_n :: cog where
  "with_n = snd (plugins_add hub ''u/r/n'' started)"

text \<open>The same network once the code of every plugin has stopped importing.\<close>

definition hub_broken :: "nat list env" where
  "hub_broken = hub\<lparr>importable := (\<lambda>x. False)\<rparr>"

text \<open>The bot after adding the plugins \<^verbatim>\<open>a\<close>, \<^verbatim>\<open>b\<close> and \<^verbatim>\<open>c\<close>.\<close>

definition with_abc :: cog where
  "with_abc =
     snd (plugins_add hub ''u/rc/c'' (snd (plugins_add hub ''u/rb/b'' (snd (plugins_add hub ''u/ra/a'' started)))))"

text \<open>The installer writing an error for the manifest of \<^verbatim>\<open>b\<close>, and exiting with 1.\<close>

definition hub_pip_error :: "nat list env" where
  "hub_pip_error =
     hub\<lparr>pip := (\<lambda>r. if r = [''/'', ''bot'', ''plugins'', ''u'', ''rb'', ''b-master'', ''requirements.txt'']
                      then ([], ''ERROR: No matching distribution found for somelib'', 1)
                      else ([], [], 0))\<rparr>"

text \<open>The installer exiting with 1 and writing nothing, and exiting with 0 after a warning.\<close>

definition hub_pip_silent :: "nat list env" where
  "hub_pip_silent = hub\<lparr>pip := (\<lambda>r. ([], [], 1))\<rparr>"

definition hub_pip_warning :: "nat list env" where
  "hub_pip_warning = hub\<lparr>pip := (\<lambda>r. ([], ''WARNING: a newer pip is available'', 0))\<rparr>"


definition plugin_n :: plugina where
  "plugin_n = Plugina ''u'' ''r'' ''n'' None"


definition plugin_b :: plugina where
  "plugin_b = Plugina ''u'' ''rb'' ''b'' None"

text \<open>The bot after start-up and a download of \<^verbatim>\<open>n\<close>, and of \<^verbatim>\<open>b\<close>.\<close>

definition fetched_n :: cog where
  "fetched_n = snd (download_plugin hub plugin_n False started)"

definition fetched_b :: cog where
  "fetched_b = snd (download_plugin hub plugin_b False started)"

definition plugin_d :: plugina where
  "plugin_d = Plugina ''u'' ''rd'' ''d'' None"

definition plugin_k :: plugina where
  "plugin_k = Plugina ''u'' ''rk'' ''k'' None"

text \<open>The alternate registry out of reach, and the official one.\<close>

definition hub_official_only :: "nat list env" where
  "hub_official_only = hub\<lparr>http_get := (\<lambda>u. if u = vregistry_url then None else served u)\<rparr>"

definition hub_alternate_only :: "nat list env" where
  "hub_alternate_only = hub\<lparr>http_get := (\<lambda>u. if u = registry_url then None else served u)\<rparr>"

text \<open>An installer whose standard error is no UTF-8, for a decoder that knows it.\<close>

definition hub_pip_garbled :: "nat list env" where
  "hub_pip_garbled =
     hub\<lparr>pip := (\<lambda>r. ([], [CHR 0xFF], 1)),
         decode := (\<lambda>b. if CHR 0xFF \<in> set b then None else Some b)\<rparr>"


section \<open>Properties\<close>

subsection \<open>Paths\<close>




text \<open>No segment of a split string holds a slash, so what follows the root is relative.\<close>

lemma split_slash_no_slash:
  "CHR ''/'' \<notin> set cur \<Longrightarrow> seg \<in> set (split_slash cur s) \<Longrightarrow> CHR ''/'' \<notin> set seg"
  by (induction cur s rule: split_slash.induct) (auto split: if_splits)

lemma length_root_of: "length (root_of s) \<le> 1"
  by (induction s rule: root_of.induct) auto

lemma drop2_parts_segments:
  assumes "seg \<in> set (drop 2 (parts s))"
  shows "CHR ''/'' \<notin> set seg"
proof -
  have "drop 2 (root_of s) = []" using length_root_of[of s] by simp
  then have "set (drop 2 (parts s)) \<subseteq> set (split_slash [] s)"
    by (auto simp: parts_def dest: in_set_dropD)
  then show ?thesis using assms split_slash_no_slash[of "[]" seg s] by auto
qed

lemma drop2_parts_relative: "\<not> is_absolute (drop 2 (parts s))"
proof (cases "drop 2 (parts s)")
  case Nil
  then show ?thesis by (simp add: is_absolute_def)
next
  case (Cons seg rest)
  then have "CHR ''/'' \<notin> set seg" using drop2_parts_segments[of seg s] by simp
  then have "seg \<noteq> ''/'' \<and> seg \<noteq> ''//''" by auto
  then show ?thesis using Cons by (simp add: is_absolute_def)
qed

lemma plugin_path_under: "plugin_path ap info = ap @ drop 2 (parts (filename info))"
  by (simp add: plugin_path_def join_def drop2_parts_relative)

subsection \<open>Resolving a path\<close>




lemma walk_resolve: "walk ds [] p = Some q \<Longrightarrow> q = resolve p"
proof -
  have "walk ds cur p = Some q \<Longrightarrow> q = last (cur # visited cur p)" for cur
    by (induction ds cur p rule: walk.induct) (auto split: if_splits)
  then show "walk ds [] p = Some q \<Longrightarrow> q = resolve p" by (simp add: resolve_def)
qed


lemma makedirs_from_made:
  "makedirs_from cur p s = (Inr y, s') \<Longrightarrow> s' = s\<lparr>dirs := dirs s \<union> set (visited cur p)\<rparr>"
proof (induction p arbitrary: cur s)
  case Nil
  then show ?case by simp
next
  case (Cons x xs)
  let ?t = "s\<lparr>dirs := insert (step cur x) (dirs s)\<rparr>"
  have "makedirs_from (step cur x) xs ?t = (Inr y, s')"
    using Cons.prems by (simp split: if_splits)
  then have "s' = ?t\<lparr>dirs := dirs ?t \<union> set (visited (step cur x) xs)\<rparr>"
    by (rule Cons.IH)
  then show ?case by simp
qed

lemma makedirs_made: "makedirs p s = (Inr y, s') \<Longrightarrow> s' = mkdir_parents p s"
  by (simp add: makedirs_def mkdir_parents_def makedirs_from_made)

subsection \<open>What a download leaves on disk and in the request log\<close>













lemma download_plugin_unfold:
  assumes "\<not> (exists s (abs_path (base e) plugin) \<and> \<not> force)"
  shows "download_plugin e plugin force s =
           (case open_archive e plugin force (mkdir_parents (abs_path (base e) plugin) s) of
              (Inl x, s2) \<Rightarrow> (Inl x, s2)
            | (Inr plugin_io, s2) \<Rightarrow>
                (case infolist e plugin_io of
                   None \<Rightarrow> (Inl BadZipFile, s2)
                 | Some infos \<Rightarrow>
                     extract_all e (abs_path (base e) plugin) (name plugin) infos s2))"
  using assms by (auto simp: download_plugin_def)






subsection \<open>Extraction\<close>

lemma extract_all_selected_only:
  "extract_all e ap nm (filter (selected nm) infos) s = extract_all e ap nm infos s"
  by (induction infos arbitrary: s) (auto split: prod.splits sum.splits)

lemma extract_all_without_other:
  assumes "other \<noteq> nm"
  shows "extract_all e ap nm
           (filter (\<lambda>i. \<not> (2 \<le> length (parts (filename i)) \<and> parts (filename i) ! 1 = other)) infos) s =
         extract_all e ap nm infos s"
    (is "extract_all e ap nm (filter ?keep infos) s = _")
proof -
  have "\<And>i. selected nm i \<Longrightarrow> ?keep i"
    using assms by (simp add: selected_def)
  then have "filter (selected nm) (filter ?keep infos) = filter (selected nm) infos"
    by (auto intro!: filter_cong)
  then show ?thesis
    using extract_all_selected_only[of e ap nm "filter ?keep infos" s]
          extract_all_selected_only[of e ap nm infos s]
    by simp
qed

text \<open>Where the steps end: a path without \<^verbatim>\<open>..\<close> stays below where it starts.\<close>

lemma last_visited: "last (cur # visited cur p) = foldl step cur p"
  by (induction p arbitrary: cur) auto

lemma foldl_step_plain: "''..'' \<notin> set q \<Longrightarrow> foldl step cur q = cur @ q"
  by (induction q arbitrary: cur) (auto simp: step_def)

lemma resolve_foldl: "resolve p = foldl step [] p"
  unfolding resolve_def by (rule last_visited)

lemma resolve_append_plain: "''..'' \<notin> set q \<Longrightarrow> resolve (p @ q) = resolve p @ q"
  by (simp add: resolve_foldl foldl_step_plain)

text \<open>What one entry does to the disk when it is extracted, and what it can do at all.\<close>

lemma contents_makedirs_from: "makedirs_from cur p s = (r, s') \<Longrightarrow> contents s' = contents s"
proof (induction p arbitrary: cur s)
  case Nil
  then show ?case by simp
next
  case (Cons x xs)
  show ?case
  proof (cases "contents s (step cur x) \<noteq> None")
    case True
    then show ?thesis using Cons.prems by simp
  next
    case False
    then have "makedirs_from (step cur x) xs (s\<lparr>dirs := insert (step cur x) (dirs s)\<rparr>) = (r, s')"
      using Cons.prems by simp
    then have "contents s' = contents (s\<lparr>dirs := insert (step cur x) (dirs s)\<rparr>)"
      by (rule Cons.IH)
    then show ?thesis by simp
  qed
qed

lemma copy_to_done:
  "copy_to room p raw s = (Inr y, s') \<Longrightarrow> s' = s\<lparr>contents := (contents s)(resolve p \<mapsto> raw)\<rparr>"
  by (auto simp: copy_to_def write_wb_def Let_def split: option.splits if_splits)

lemma copy_to_touches:
  "copy_to room p raw s = (r, s') \<Longrightarrow> contents s' k \<noteq> contents s k \<Longrightarrow> k = resolve p"
  by (auto simp: copy_to_def write_wb_def Let_def split: option.splits if_splits)

lemma extract_one_file:
  assumes "\<not> is_dir info" and "makedirs (parent (ap @ drop 2 (parts (filename info)))) s = (r1, s1)"
    and "extract_one e ap info s = (r, s')"
  shows "(\<exists>x. r1 = Inl x \<and> r = Inl x \<and> s' = s1) \<or>
         (\<exists>x. zip_open e info = Inl x \<and> r = Inl x \<and> s' = s1) \<or>
         (\<exists>stop r2. zip_open e info = Inr (delivered e info, stop) \<and> r1 = Inr () \<and>
             copy_to (disk_space e) (ap @ drop 2 (parts (filename info))) (delivered e info) s1 = (r2, s') \<and>
             (case r2 of Inl x \<Rightarrow> r = Inl x
              | Inr u \<Rightarrow> (case stop of None \<Rightarrow> r = Inr () | Some x \<Rightarrow> r = Inl x)))"
  using assms
  by (auto simp: extract_one_def plugin_path_under delivered_def
      split: sum.splits prod.splits option.splits)

lemma extract_one_done:
  assumes "extract_one e ap info s = (Inr y, s')"
  shows "s' = (if is_dir info then mkdir_parents (ap @ drop 2 (parts (filename info))) s
               else (mkdir_parents (parent (ap @ drop 2 (parts (filename info)))) s)
                      \<lparr>contents := (contents s)(resolve (ap @ drop 2 (parts (filename info))) \<mapsto> delivered e info)\<rparr>)"
proof (cases "is_dir info")
  case True
  then show ?thesis using assms makedirs_made by (simp add: extract_one_def plugin_path_under)
next
  case False
  let ?p = "ap @ drop 2 (parts (filename info))"
  obtain r1 s1 where m: "makedirs (parent ?p) s = (r1, s1)" by (cases "makedirs (parent ?p) s")
  have c: "r1 = Inr () \<and> copy_to (disk_space e) ?p (delivered e info) s1 = (Inr (), s')"
    using assms False m
    by (auto simp: extract_one_def plugin_path_under delivered_def
        split: sum.splits prod.splits option.splits)
  have s1: "s1 = mkdir_parents (parent ?p) s" using m c makedirs_made by simp
  have "s' = s1\<lparr>contents := (contents s1)(resolve ?p \<mapsto> delivered e info)\<rparr>"
    using c copy_to_done by blast
  then show ?thesis using False s1 by (simp add: mkdir_parents_def)
qed

lemma extract_one_touches:
  assumes "extract_one e ap info s = (r, s')" and "contents s' k \<noteq> contents s k"
  shows "\<not> is_dir info \<and> k = resolve (ap @ drop 2 (parts (filename info)))"
proof (cases "is_dir info")
  case True
  then have "contents s' = contents s"
    using assms(1) contents_makedirs_from by (simp add: extract_one_def makedirs_def)
  then show ?thesis using assms(2) by simp
next
  case False
  let ?p = "ap @ drop 2 (parts (filename info))"
  obtain r1 s1 where m: "makedirs (parent ?p) s = (r1, s1)" by (cases "makedirs (parent ?p) s")
  then have c1: "contents s1 = contents s"
    using contents_makedirs_from by (simp add: makedirs_def)
  from extract_one_file[OF False m assms(1)]
  consider "s' = s1"
    | r2 where "copy_to (disk_space e) ?p (delivered e info) s1 = (r2, s')"
    by auto
  then show ?thesis
  proof cases
    case 1
    then show ?thesis using c1 assms(2) by simp
  next
    case 2
    then show ?thesis using copy_to_touches[of _ ?p _ s1 r2 s' k] c1 assms(2) False by simp
  qed
qed

lemma extract_all_touches:
  "extract_all e ap nm infos s = (r, s') \<Longrightarrow> contents s' k \<noteq> contents s k \<Longrightarrow>
     \<exists>i \<in> set infos. selected nm i \<and> \<not> is_dir i \<and> k = resolve (ap @ drop 2 (parts (filename i)))"
proof (induction infos arbitrary: s)
  case Nil
  then show ?case by simp
next
  case (Cons info infos)
  show ?case
  proof (cases "selected nm info")
    case False
    then show ?thesis using Cons by simp
  next
    case True
    obtain r1 s1 where o: "extract_one e ap info s = (r1, s1)" by (cases "extract_one e ap info s")
    show ?thesis
    proof (cases "contents s1 k \<noteq> contents s k")
      case True
      then show ?thesis using extract_one_touches[OF o] \<open>selected nm info\<close> by simp
    next
      case same: False
      show ?thesis
      proof (cases r1)
        case (Inl x)
        then have "s' = s1" using Cons.prems(1) True o by simp
        then show ?thesis using same Cons.prems(2) by simp
      next
        case (Inr u)
        then have "extract_all e ap nm infos s1 = (r, s')" using Cons.prems(1) True o by simp
        moreover have "contents s' k \<noteq> contents s1 k" using same Cons.prems(2) by simp
        ultimately show ?thesis using Cons.IH[of s1] by auto
      qed
    qed
  qed
qed

lemma extract_all_stops:
  "extract_all e ap nm infos s = (Inl x, s') \<Longrightarrow>
     \<exists>pre i post s1. infos = pre @ i # post \<and> selected nm i \<and>
        extract_all e ap nm pre s = (Inr (), s1) \<and> extract_one e ap i s1 = (Inl x, s')"
proof (induction infos arbitrary: s)
  case Nil
  then show ?case by simp
next
  case (Cons info infos)
  show ?case
  proof (cases "selected nm info")
    case False
    then have "extract_all e ap nm infos s = (Inl x, s')" using Cons.prems by simp
    then obtain pre i post s1 where h: "infos = pre @ i # post" "selected nm i"
        "extract_all e ap nm pre s = (Inr (), s1)" "extract_one e ap i s1 = (Inl x, s')"
      using Cons.IH by blast
    have "info # infos = (info # pre) @ i # post" using h(1) by simp
    moreover have "extract_all e ap nm (info # pre) s = (Inr (), s1)" using h(3) False by simp
    ultimately show ?thesis using h(2,4) by blast
  next
    case True
    obtain r1 s1 where o: "extract_one e ap info s = (r1, s1)" by (cases "extract_one e ap info s")
    show ?thesis
    proof (cases r1)
      case (Inl y)
      then have "extract_one e ap info s = (Inl x, s')" using Cons.prems True o by simp
      moreover have "info # infos = [] @ info # infos" by simp
      moreover have "extract_all e ap nm [] s = (Inr (), s)" by simp
      ultimately show ?thesis using True by blast
    next
      case (Inr u)
      then have "extract_all e ap nm infos s1 = (Inl x, s')" using Cons.prems True o by simp
      then obtain pre i post s2 where h: "infos = pre @ i # post" "selected nm i"
          "extract_all e ap nm pre s1 = (Inr (), s2)" "extract_one e ap i s2 = (Inl x, s')"
        using Cons.IH by blast
      have "info # infos = (info # pre) @ i # post" using h(1) by simp
      moreover have "extract_all e ap nm (info # pre) s = (Inr (), s2)"
        using h(3) True o Inr by simp
      ultimately show ?thesis using h(2,4) by blast
    qed
  qed
qed


lemma extract_all_done:
  "extract_all e ap nm infos s = (Inr y, s') \<Longrightarrow>
     contents s' = contents s ++
        map_of (rev (map (\<lambda>i. (resolve (ap @ drop 2 (parts (filename i))), delivered e i))
                         (filter (\<lambda>i. selected nm i \<and> \<not> is_dir i) infos))) \<and>
     dirs s' = dirs s \<union>
        (\<Union>i \<in> set (filter (selected nm) infos).
            set (visited [] (if is_dir i then ap @ drop 2 (parts (filename i))
                             else parent (ap @ drop 2 (parts (filename i))))))"
proof (induction infos arbitrary: s)
  case Nil
  then show ?case by simp
next
  case (Cons info infos)
  show ?case
  proof (cases "selected nm info")
    case False
    then show ?thesis using Cons by simp
  next
    case True
    let ?p = "ap @ drop 2 (parts (filename info))"
    obtain r1 s1 where o: "extract_one e ap info s = (r1, s1)" by (cases "extract_one e ap info s")
    have r1: "r1 = Inr ()" using Cons.prems True o by (cases r1) auto
    then have rest: "extract_all e ap nm infos s1 = (Inr y, s')" using Cons.prems True o by simp
    note ih = Cons.IH[OF rest]
    have s1: "s1 = (if is_dir info then mkdir_parents ?p s
               else (mkdir_parents (parent ?p) s)
                      \<lparr>contents := (contents s)(resolve ?p \<mapsto> delivered e info)\<rparr>)"
      using o r1 extract_one_done by blast
    show ?thesis
    proof (cases "is_dir info")
      case dir: True
      then have "contents s1 = contents s" "dirs s1 = dirs s \<union> set (visited [] ?p)"
        using s1 by (simp_all add: mkdir_parents_def)
      then show ?thesis using ih True dir by (simp add: Un_assoc)
    next
      case plain: False
      then have c: "contents s1 = (contents s)(resolve ?p \<mapsto> delivered e info)"
        and d: "dirs s1 = dirs s \<union> set (visited [] (parent ?p))"
        using s1 by (simp_all add: mkdir_parents_def)
      let ?f = "\<lambda>i. (resolve (ap @ drop 2 (parts (filename i))), delivered e i)"
      let ?sel = "\<lambda>i. selected nm i \<and> \<not> is_dir i"
      have l: "filter ?sel (info # infos) = info # filter ?sel infos"
        using True plain by simp
      have m: "map_of (rev (map ?f (filter ?sel (info # infos)))) =
               [resolve ?p \<mapsto> delivered e info] ++ map_of (rev (map ?f (filter ?sel infos)))"
        unfolding l by (simp only: list.map rev.simps map_of_append map_of.simps fst_conv snd_conv)
      have u: "(contents s)(resolve ?p \<mapsto> delivered e info) = contents s ++ [resolve ?p \<mapsto> delivered e info]"
        by simp
      have "contents s' = contents s1 ++ map_of (rev (map ?f (filter ?sel infos)))"
        using ih by (rule conjunct1)
      also have "\<dots> = (contents s ++ [resolve ?p \<mapsto> delivered e info]) ++ map_of (rev (map ?f (filter ?sel infos)))"
        by (simp only: c u)
      also have "\<dots> = contents s ++ map_of (rev (map ?f (filter ?sel (info # infos))))"
        by (simp only: m map_add_assoc)
      finally have "contents s' = contents s ++ map_of (rev (map ?f (filter ?sel (info # infos))))" .
      moreover have "dirs s' = dirs s \<union>
        (\<Union>i \<in> set (filter (selected nm) (info # infos)).
            set (visited [] (if is_dir i then ap @ drop 2 (parts (filename i))
                             else parent (ap @ drop 2 (parts (filename i))))))"
        using ih d True plain by (simp add: Un_assoc)
      ultimately show ?thesis by simp
    qed
  qed
qed

text \<open>
  Claim C4, as amended (extraction scoping). Let the install directory have been
  made and the archive opened, with entry list \<open>infos\<close>. Then \<^verbatim>\<open>download_plugin\<close> is the
  extraction loop run on that list, and:

  \<^item> a file on disk changes only if it is the target of a file entry whose path has at
    least three parts and whose second part is the name of the plugin; the target is the
    install directory followed by the parts after the second, as the file system resolves
    it;
  \<^item> when the loop ends without an exception, every such entry has been written (a later
    entry for the same target overwriting an earlier one) and the directories of every
    entry passing the test have been made, and nothing else;
  \<^item> when the loop ends with an exception, it is the exception of one entry passing the
    test, raised after the entries before it were extracted, and no entry after it is
    extracted;
  \<^item> the entries whose second part is the name of another plugin could as well be missing
    from the archive;
  \<^item> the target of an entry whose parts after the second have no \<^verbatim>\<open>..\<close> among them lies
    below the install directory.
\<close>

theorem extraction_scoping:
  assumes "\<not> (exists s (abs_path (base e) plugin) \<and> \<not> force)"
    and "makedirs (abs_path (base e) plugin) s = (Inr (), s1)"
    and "open_archive e plugin force s1 = (Inr plugin_io, s2)"
    and "infolist e plugin_io = Some infos"
    and "other \<noteq> name plugin"
  shows "download_plugin e plugin force s =
           extract_all e (abs_path (base e) plugin) (name plugin) infos s2 \<and>
         (\<forall>k. contents (snd (download_plugin e plugin force s)) k \<noteq> contents s2 k \<longrightarrow>
              (\<exists>i \<in> set infos. selected (name plugin) i \<and> \<not> is_dir i \<and>
                   k = resolve (abs_path (base e) plugin @ drop 2 (parts (filename i))))) \<and>
         (fst (download_plugin e plugin force s) = Inr () \<longrightarrow>
            contents (snd (download_plugin e plugin force s)) =
              contents s2 ++
              map_of (rev (map (\<lambda>i. (resolve (abs_path (base e) plugin @ drop 2 (parts (filename i))),
                                      delivered e i))
                             (filter (\<lambda>i. selected (name plugin) i \<and> \<not> is_dir i) infos))) \<and>
            dirs (snd (download_plugin e plugin force s)) =
              dirs s2 \<union>
              (\<Union>i \<in> set (filter (selected (name plugin)) infos).
                 set (visited [] (if is_dir i then abs_path (base e) plugin @ drop 2 (parts (filename i))
                                  else parent (abs_path (base e) plugin @ drop 2 (parts (filename i))))))) \<and>
         (\<forall>x. fst (download_plugin e plugin force s) = Inl x \<longrightarrow>
              (\<exists>pre i post s3. infos = pre @ i # post \<and> selected (name plugin) i \<and>
                  extract_all e (abs_path (base e) plugin) (name plugin) pre s2 = (Inr (), s3) \<and>
                  extract_one e (abs_path (base e) plugin) i s3 =
                    (Inl x, snd (download_plugin e plugin force s)))) \<and>
         extract_all e (abs_path (base e) plugin) (name plugin)
           (filter (\<lambda>i. \<not> (2 \<le> length (parts (filename i)) \<and> parts (filename i) ! 1 = other)) infos) s2 =
           extract_all e (abs_path (base e) plugin) (name plugin) infos s2 \<and>
         (\<forall>i. ''..'' \<notin> set (drop 2 (parts (filename i))) \<longrightarrow>
              resolve (abs_path (base e) plugin @ drop 2 (parts (filename i))) =
                resolve (abs_path (base e) plugin) @ drop 2 (parts (filename i)))"
proof -
  let ?ap = "abs_path (base e) plugin"
  let ?d = "download_plugin e plugin force s"
  have s1: "s1 = mkdir_parents ?ap s" using assms(2) by (rule makedirs_made)
  have d: "?d = extract_all e ?ap (name plugin) infos s2"
    using assms(3,4) by (simp add: download_plugin_unfold[OF assms(1)] s1[symmetric])
  then have p: "extract_all e ?ap (name plugin) infos s2 = (fst ?d, snd ?d)" by simp
  have t: "\<forall>k. contents (snd ?d) k \<noteq> contents s2 k \<longrightarrow>
              (\<exists>i \<in> set infos. selected (name plugin) i \<and> \<not> is_dir i \<and>
                   k = resolve (?ap @ drop 2 (parts (filename i))))"
    using extract_all_touches[OF p] by blast
  have ok: "fst ?d = Inr () \<longrightarrow>
            contents (snd ?d) =
              contents s2 ++
              map_of (rev (map (\<lambda>i. (resolve (?ap @ drop 2 (parts (filename i))), delivered e i))
                             (filter (\<lambda>i. selected (name plugin) i \<and> \<not> is_dir i) infos))) \<and>
            dirs (snd ?d) =
              dirs s2 \<union>
              (\<Union>i \<in> set (filter (selected (name plugin)) infos).
                 set (visited [] (if is_dir i then ?ap @ drop 2 (parts (filename i))
                                  else parent (?ap @ drop 2 (parts (filename i))))))"
  proof
    assume "fst ?d = Inr ()"
    then have "extract_all e ?ap (name plugin) infos s2 = (Inr (), snd ?d)" using p by simp
    then show "contents (snd ?d) =
              contents s2 ++
              map_of (rev (map (\<lambda>i. (resolve (?ap @ drop 2 (parts (filename i))), delivered e i))
                             (filter (\<lambda>i. selected (name plugin) i \<and> \<not> is_dir i) infos))) \<and>
            dirs (snd ?d) =
              dirs s2 \<union>
              (\<Union>i \<in> set (filter (selected (name plugin)) infos).
                 set (visited [] (if is_dir i then ?ap @ drop 2 (parts (filename i))
                                  else parent (?ap @ drop 2 (parts (filename i))))))"
      by (rule extract_all_done)
  qed
  have ko: "\<forall>x. fst ?d = Inl x \<longrightarrow>
              (\<exists>pre i post s3. infos = pre @ i # post \<and> selected (name plugin) i \<and>
                  extract_all e ?ap (name plugin) pre s2 = (Inr (), s3) \<and>
                  extract_one e ?ap i s3 = (Inl x, snd ?d))"
  proof (intro allI impI)
    fix x assume "fst ?d = Inl x"
    then have "extract_all e ?ap (name plugin) infos s2 = (Inl x, snd ?d)" using p by simp
    then show "\<exists>pre i post s3. infos = pre @ i # post \<and> selected (name plugin) i \<and>
                  extract_all e ?ap (name plugin) pre s2 = (Inr (), s3) \<and>
                  extract_one e ?ap i s3 = (Inl x, snd ?d)"
      by (rule extract_all_stops)
  qed
  have pl: "\<forall>i. ''..'' \<notin> set (drop 2 (parts (filename i))) \<longrightarrow>
              resolve (?ap @ drop 2 (parts (filename i))) = resolve ?ap @ drop 2 (parts (filename i))"
    using resolve_append_plain by blast
  show ?thesis
    using d t ok ko extract_all_without_other[OF assms(5)] pl by (intro conjI)
qed

text \<open>
  In the small world the archive of \<^verbatim>\<open>u/r\<close> holds \<^verbatim>\<open>n/n.py\<close> and
  \<^verbatim>\<open>m/m.py\<close>; a download of \<^verbatim>\<open>n\<close> writes the first and nothing of the second.
  The archive of \<^verbatim>\<open>u/rk\<close> holds a file \<^verbatim>\<open>k/data\<close> and then a directory of the same
  name; a download of \<^verbatim>\<open>k\<close> ends with the exception of that entry.
\<close>

theorem extraction_scoping_witness:
  "\<not> (exists started (abs_path (base hub) plugin_n) \<and> \<not> False) \<and>
   fst (makedirs (abs_path (base hub) plugin_n) started) = Inr () \<and>
   fst (open_archive hub plugin_n False (mkdir_parents (abs_path (base hub) plugin_n) started)) = Inr ''zip-r'' \<and>
   infolist hub ''zip-r'' = unzipped ''zip-r'' \<and>
   ''m'' \<noteq> name plugin_n \<and>
   fst (download_plugin hub plugin_n False started) = Inr () \<and>
   contents (snd (download_plugin hub plugin_n False started)) =
     contents (snd (open_archive hub plugin_n False (mkdir_parents (abs_path (base hub) plugin_n) started))) ++
     [[''/'', ''bot'', ''plugins'', ''u'', ''r'', ''n-master'', ''n.py''] \<mapsto> ''code of n''] \<and>
   contents (snd (download_plugin hub plugin_n False started))
       [''/'', ''bot'', ''plugins'', ''u'', ''r'', ''n-master'', ''n.py''] \<noteq>
     contents (snd (open_archive hub plugin_n False (mkdir_parents (abs_path (base hub) plugin_n) started)))
       [''/'', ''bot'', ''plugins'', ''u'', ''r'', ''n-master'', ''n.py''] \<and>
   (\<exists>i \<in> set (the (unzipped ''zip-r'')). selected (name plugin_n) i \<and> \<not> is_dir i \<and>
       [''/'', ''bot'', ''plugins'', ''u'', ''r'', ''n-master'', ''n.py''] =
         resolve (abs_path (base hub) plugin_n @ drop 2 (parts (filename i)))) \<and>
   ''..'' \<notin> set (drop 2 (parts ''r-master/n/n.py'')) \<and>
   resolve (abs_path (base hub) plugin_n @ drop 2 (parts ''r-master/n/n.py'')) =
     resolve (abs_path (base hub) plugin_n) @ drop 2 (parts ''r-master/n/n.py'') \<and>
   files (snd (download_plugin hub plugin_n False started))
     [''/'', ''bot'', ''plugins'', ''u'', ''r'', ''n-master'', ''m.py''] = None \<and>
   files (snd (download_plugin hub plugin_n False started))
     [''/'', ''bot'', ''plugins'', ''u'', ''r'', ''m-master'', ''m.py''] = None \<and>
   \<not> (exists started (abs_path (base hub) plugin_k) \<and> \<not> False) \<and>
   fst (makedirs (abs_path (base hub) plugin_k) started) = Inr () \<and>
   fst (open_archive hub plugin_k False (mkdir_parents (abs_path (base hub) plugin_k) started)) = Inr ''zip-k'' \<and>
   infolist hub ''zip-k'' = unzipped ''zip-k'' \<and>
   fst (download_plugin hub plugin_k False started) = Inl OSError \<and>
   (\<exists>pre i post s3. the (unzipped ''zip-k'') = pre @ i # post \<and> selected (name plugin_k) i \<and>
       extract_all hub (abs_path (base hub) plugin_k) (name plugin_k) pre
         (snd (open_archive hub plugin_k False (mkdir_parents (abs_path (base hub) plugin_k) started))) =
         (Inr (), s3) \<and>
       extract_one hub (abs_path (base hub) plugin_k) i s3 =
         (Inl OSError, snd (download_plugin hub plugin_k False started)))"
proof -
  let ?ap = "abs_path (base hub) plugin_n"
  let ?s1 = "mkdir_parents ?ap started"
  let ?s2 = "snd (open_archive hub plugin_n False ?s1)"
  let ?k = "[''/'', ''bot'', ''plugins'', ''u'', ''r'', ''n-master'', ''n.py'']"
  have h1: "\<not> (exists started ?ap \<and> \<not> False)" by code_simp
  have a1: "fst (makedirs ?ap started) = Inr ()" by code_simp
  then have "makedirs ?ap started = (Inr (), snd (makedirs ?ap started))"
    by (simp add: prod_eq_iff)
  then have h2: "makedirs ?ap started = (Inr (), ?s1)"
    using makedirs_made by metis
  have a: "fst (open_archive hub plugin_n False ?s1) = Inr ''zip-r''"
    by code_simp
  then have h3: "open_archive hub plugin_n False ?s1 = (Inr ''zip-r'', ?s2)"
    by (simp add: prod_eq_iff)
  have h4: "infolist hub ''zip-r'' = Some (the (unzipped ''zip-r''))" by code_simp
  have h4': "infolist hub ''zip-r'' = unzipped ''zip-r''" by code_simp
  have h5: "''m'' \<noteq> name plugin_n" by code_simp
  have l: "rev (map (\<lambda>i. (resolve (?ap @ drop 2 (parts (filename i))), delivered hub i))
                  (filter (\<lambda>i. selected (name plugin_n) i \<and> \<not> is_dir i)
                     (the (unzipped ''zip-r''))))
           = [(?k, ''code of n'')]"
    by code_simp
  note t = extraction_scoping[OF h1 h2 h3 h4 h5]
  have d: "fst (download_plugin hub plugin_n False started) = Inr ()"
    by code_simp
  have f: "contents (snd (download_plugin hub plugin_n False started)) = contents ?s2 ++
     [?k \<mapsto> ''code of n'']"
    using conjunct1[OF conjunct2[OF conjunct2[OF t]]] d
    by (simp only: l map_of.simps fst_conv snd_conv simp_thms)
  have c: "contents (snd (download_plugin hub plugin_n False started)) ?k \<noteq> contents ?s2 ?k"
    by code_simp
  have g: "\<exists>i \<in> set (the (unzipped ''zip-r'')). selected (name plugin_n) i \<and> \<not> is_dir i \<and>
             ?k = resolve (?ap @ drop 2 (parts (filename i)))"
    using conjunct1[OF conjunct2[OF t]] c by blast
  have q: "''..'' \<notin> set (drop 2 (parts ''r-master/n/n.py''))" by code_simp
  have r: "resolve (?ap @ drop 2 (parts ''r-master/n/n.py'')) =
             resolve ?ap @ drop 2 (parts ''r-master/n/n.py'')"
    using conjunct2[OF conjunct2[OF conjunct2[OF conjunct2[OF conjunct2[OF t]]]]] q
      spec[of _ "\<lparr>filename = ''r-master/n/n.py'', content = []\<rparr>"]
    by (metis zip_info.select_convs(1))
  have m1: "files (snd (download_plugin hub plugin_n False started))
              [''/'', ''bot'', ''plugins'', ''u'', ''r'', ''n-master'', ''m.py''] = None"
    by code_simp
  have m2: "files (snd (download_plugin hub plugin_n False started))
              [''/'', ''bot'', ''plugins'', ''u'', ''r'', ''m-master'', ''m.py''] = None"
    by code_simp
  let ?ak = "abs_path (base hub) plugin_k"
  let ?k1 = "mkdir_parents ?ak started"
  let ?k2 = "snd (open_archive hub plugin_k False ?k1)"
  have k1: "\<not> (exists started ?ak \<and> \<not> False)" by code_simp
  have b1: "fst (makedirs ?ak started) = Inr ()" by code_simp
  then have "makedirs ?ak started = (Inr (), snd (makedirs ?ak started))"
    by (simp add: prod_eq_iff)
  then have k2: "makedirs ?ak started = (Inr (), ?k1)"
    using makedirs_made by metis
  have b: "fst (open_archive hub plugin_k False ?k1) = Inr ''zip-k''"
    by code_simp
  then have k3: "open_archive hub plugin_k False ?k1 = (Inr ''zip-k'', ?k2)"
    by (simp add: prod_eq_iff)
  have k4: "infolist hub ''zip-k'' = Some (the (unzipped ''zip-k''))" by code_simp
  have k4': "infolist hub ''zip-k'' = unzipped ''zip-k''" by code_simp
  have k5: "''m'' \<noteq> name plugin_k" by code_simp
  note u = extraction_scoping[OF k1 k2 k3 k4 k5]
  have x: "fst (download_plugin hub plugin_k False started) = Inl OSError"
    by code_simp
  have y: "\<exists>pre i post s3. the (unzipped ''zip-k'') = pre @ i # post \<and> selected (name plugin_k) i \<and>
       extract_all hub ?ak (name plugin_k) pre ?k2 = (Inr (), s3) \<and>
       extract_one hub ?ak i s3 = (Inl OSError, snd (download_plugin hub plugin_k False started))"
    using conjunct1[OF conjunct2[OF conjunct2[OF conjunct2[OF u]]]] x by blast
  from h1 a1 a h4' h5 d f c g q r m1 m2 k1 b1 b k4' x y show ?thesis by (intro conjI)
qed

text \<open>
  What the claim says of every archive fails for two of them. The archive of \<^verbatim>\<open>u/rd\<close>
  holds the entry \<^verbatim>\<open>rd-master/d/sub/../../../../escaped.txt\<close>: its second part is the
  name of the plugin, it is extracted, and the file lands in \<^verbatim>\<open>/bot/plugins\<close>, outside
  the install directory \<^verbatim>\<open>/bot/plugins/u/rd/d-master\<close>. The archive of \<^verbatim>\<open>u/rk\<close>
  holds \<^verbatim>\<open>k/data\<close> once as a file and once as a directory: the second raises, the loop
  is left, and \<^verbatim>\<open>k/k.py\<close>, which passes the test, is never extracted.
\<close>

theorem extraction_leaves_install_directory:
  "selected (name plugin_d)
     \<lparr>filename = ''rd-master/d/sub/../../../../escaped.txt'', content = ''escaped''\<rparr> \<and>
   infolist hub ''zip-d'' =
     Some [\<lparr>filename = ''rd-master/d/d.py'', content = ''code of d''\<rparr>,
           \<lparr>filename = ''rd-master/d/sub/../../../../escaped.txt'', content = ''escaped''\<rparr>] \<and>
   files started [''/'', ''bot'', ''plugins'', ''escaped.txt''] = None \<and>
   (case download_plugin hub plugin_d False started of
      (r, s) \<Rightarrow> (r, files s [''/'', ''bot'', ''plugins'', ''escaped.txt''])) =
     (Inr (), Some ''escaped'') \<and>
   \<not> prefix (abs_path (base hub) plugin_d) [''/'', ''bot'', ''plugins'', ''escaped.txt''] \<and>
   selected (name plugin_k) \<lparr>filename = ''rk-master/k/k.py'', content = ''code of k''\<rparr> \<and>
   infolist hub ''zip-k'' =
     Some [\<lparr>filename = ''rk-master/k/data'', content = ''a file''\<rparr>,
           \<lparr>filename = ''rk-master/k/data/'', content = []\<rparr>,
           \<lparr>filename = ''rk-master/k/k.py'', content = ''code of k''\<rparr>] \<and>
   (case download_plugin hub plugin_k False started of
      (r, s) \<Rightarrow> (r, files s (abs_path (base hub) plugin_k @ [''data'']),
                    files s (abs_path (base hub) plugin_k @ [''k.py'']))) =
     (Inl OSError, Some ''a file'', None)"
  by code_simp

subsection \<open>The cache file\<close>





subsection \<open>The installer\<close>

lemma install_requirements_cases:
  "install_requirements e req s =
     (if \<not> exists s req then (Inr (), s)
      else if fst (pip e req) \<noteq> [] \<and> decode e (fst (pip e req)) = None
        then (Inl UnicodeDecodeError, s\<lparr>spawned := spawned s @ [req]\<rparr>)
      else if fst (snd (pip e req)) \<noteq> []
        then (case decode e (fst (snd (pip e req))) of
                None \<Rightarrow> (Inl UnicodeDecodeError, s\<lparr>spawned := spawned s @ [req]\<rparr>)
              | Some text \<Rightarrow> (Inl (InvalidPluginError (RequirementsFailed text)),
                              s\<lparr>spawned := spawned s @ [req]\<rparr>))
        else (Inr (), (case user_site e of
                         None \<Rightarrow> s\<lparr>spawned := spawned s @ [req]\<rparr>
                       | Some u \<Rightarrow> s\<lparr>spawned := spawned s @ [req], sys_path := u # sys_path s\<rparr>)))"
  by (cases "pip e req") (auto simp: install_requirements_def Let_def split: option.splits)

text \<open>
  Claim C7, as amended (the installer). Without the entry file \<^verbatim>\<open>load_plugin\<close>
  raises at once and spawns nothing. With the entry file and without a manifest no
  subprocess is spawned; with both, exactly one is spawned, on that manifest. The
  requirements error is raised exactly when the entry file and the manifest exist, the
  installer wrote something to its standard error, whatever its exit code, and what it
  wrote can be decoded: its standard output when there is any, and its standard error.
  The error carries the decoded text of the standard error whole. When one of the two
  cannot be decoded, the exception of \<^verbatim>\<open>decode\<close> leaves \<^verbatim>\<open>load_plugin\<close> instead.
\<close>

theorem requirements_contract:
  "(\<not> exists s (joins (abs_path (base e) plugin) (name plugin @ ''.py'')) \<longrightarrow>
      load_plugin e plugin s = (Inl (InvalidPluginError (EntryNotFound (name plugin @ ''.py''))), s)) \<and>
   (exists s (joins (abs_path (base e) plugin) (name plugin @ ''.py'')) \<and>
    \<not> exists s (joins (abs_path (base e) plugin) ''requirements.txt'') \<longrightarrow>
      spawned (snd (load_plugin e plugin s)) = spawned s) \<and>
   (exists s (joins (abs_path (base e) plugin) (name plugin @ ''.py'')) \<and>
    exists s (joins (abs_path (base e) plugin) ''requirements.txt'') \<longrightarrow>
      spawned (snd (load_plugin e plugin s)) =
        spawned s @ [joins (abs_path (base e) plugin) ''requirements.txt'']) \<and>
   ((\<exists>text. fst (load_plugin e plugin s) = Inl (InvalidPluginError (RequirementsFailed text))) =
      (exists s (joins (abs_path (base e) plugin) (name plugin @ ''.py'')) \<and>
       exists s (joins (abs_path (base e) plugin) ''requirements.txt'') \<and>
       fst (snd (pip e (joins (abs_path (base e) plugin) ''requirements.txt''))) \<noteq> [] \<and>
       (fst (pip e (joins (abs_path (base e) plugin) ''requirements.txt'')) = [] \<or>
        decode e (fst (pip e (joins (abs_path (base e) plugin) ''requirements.txt''))) \<noteq> None) \<and>
       decode e (fst (snd (pip e (joins (abs_path (base e) plugin) ''requirements.txt'')))) \<noteq> None)) \<and>
   (\<forall>text.
      exists s (joins (abs_path (base e) plugin) (name plugin @ ''.py'')) \<and>
      exists s (joins (abs_path (base e) plugin) ''requirements.txt'') \<and>
      fst (snd (pip e (joins (abs_path (base e) plugin) ''requirements.txt''))) \<noteq> [] \<and>
      (fst (pip e (joins (abs_path (base e) plugin) ''requirements.txt'')) = [] \<or>
       decode e (fst (pip e (joins (abs_path (base e) plugin) ''requirements.txt''))) \<noteq> None) \<and>
      decode e (fst (snd (pip e (joins (abs_path (base e) plugin) ''requirements.txt'')))) = Some text \<longrightarrow>
        fst (load_plugin e plugin s) = Inl (InvalidPluginError (RequirementsFailed text))) \<and>
   (exists s (joins (abs_path (base e) plugin) (name plugin @ ''.py'')) \<and>
    exists s (joins (abs_path (base e) plugin) ''requirements.txt'') \<and>
    (fst (pip e (joins (abs_path (base e) plugin) ''requirements.txt'')) \<noteq> [] \<and>
     decode e (fst (pip e (joins (abs_path (base e) plugin) ''requirements.txt''))) = None \<or>
     fst (snd (pip e (joins (abs_path (base e) plugin) ''requirements.txt''))) \<noteq> [] \<and>
     decode e (fst (snd (pip e (joins (abs_path (base e) plugin) ''requirements.txt'')))) = None) \<longrightarrow>
      fst (load_plugin e plugin s) = Inl UnicodeDecodeError)"
  (is "?missing \<and> ?none \<and> ?one \<and> ?exactly \<and> ?carries \<and> ?garbled")
proof -
  let ?entry = "joins (abs_path (base e) plugin) (name plugin @ ''.py'')"
  let ?req = "joins (abs_path (base e) plugin) ''requirements.txt''"
  have missing: ?missing by (simp add: load_plugin_def)
  have none: ?none
    by (auto simp: load_plugin_def install_requirements_cases load_extension_def
        split: prod.splits sum.splits)
  have one: ?one
    by (auto simp: load_plugin_def install_requirements_cases load_extension_def
        split: prod.splits sum.splits option.splits)
  have exactly: ?exactly
    by (auto simp: load_plugin_def install_requirements_cases load_extension_def
        split: prod.splits sum.splits option.splits if_splits)
  have carries: ?carries
    by (auto simp: load_plugin_def install_requirements_cases)
  have garbled: ?garbled
    by (auto simp: load_plugin_def install_requirements_cases split: option.splits)
  from missing none one exactly carries garbled show ?thesis by (intro conjI)
qed

text \<open>
  In the small world: \<^verbatim>\<open>b\<close> has a manifest and the installer writes an error, once
  in UTF-8 and once not; \<^verbatim>\<open>n\<close> has no manifest; and before any download there is no
  entry file.
\<close>

theorem requirements_contract_witness:
  "exists fetched_b (joins (abs_path (base hub_pip_error) plugin_b) (name plugin_b @ ''.py'')) \<and>
   exists fetched_b (joins (abs_path (base hub_pip_error) plugin_b) ''requirements.txt'') \<and>
   pip hub_pip_error (joins (abs_path (base hub_pip_error) plugin_b) ''requirements.txt'') =
     ([], ''ERROR: No matching distribution found for somelib'', 1) \<and>
   decode hub_pip_error ''ERROR: No matching distribution found for somelib'' =
     Some ''ERROR: No matching distribution found for somelib'' \<and>
   spawned (snd (load_plugin hub_pip_error plugin_b fetched_b)) =
     spawned fetched_b @ [joins (abs_path (base hub_pip_error) plugin_b) ''requirements.txt''] \<and>
   fst (load_plugin hub_pip_error plugin_b fetched_b) =
     Inl (InvalidPluginError (RequirementsFailed ''ERROR: No matching distribution found for somelib'')) \<and>
   (\<exists>text. fst (load_plugin hub_pip_error plugin_b fetched_b) =
              Inl (InvalidPluginError (RequirementsFailed text))) \<and>
   exists fetched_b (joins (abs_path (base hub_pip_garbled) plugin_b) (name plugin_b @ ''.py'')) \<and>
   exists fetched_b (joins (abs_path (base hub_pip_garbled) plugin_b) ''requirements.txt'') \<and>
   pip hub_pip_garbled (joins (abs_path (base hub_pip_garbled) plugin_b) ''requirements.txt'') =
     ([], [CHR 0xFF], 1) \<and>
   decode hub_pip_garbled [CHR 0xFF] = None \<and>
   fst (load_plugin hub_pip_garbled plugin_b fetched_b) = Inl UnicodeDecodeError \<and>
   spawned (snd (load_plugin hub_pip_garbled plugin_b fetched_b)) =
     spawned fetched_b @ [joins (abs_path (base hub_pip_garbled) plugin_b) ''requirements.txt''] \<and>
   exists fetched_n (joins (abs_path (base hub) plugin_n) (name plugin_n @ ''.py'')) \<and>
   \<not> exists fetched_n (joins (abs_path (base hub) plugin_n) ''requirements.txt'') \<and>
   spawned (snd (load_plugin hub plugin_n fetched_n)) = spawned fetched_n \<and>
   \<not> exists started (joins (abs_path (base hub) plugin_n) (name plugin_n @ ''.py'')) \<and>
   load_plugin hub plugin_n started =
     (Inl (InvalidPluginError (EntryNotFound (name plugin_n @ ''.py''))), started)"
proof -
  let ?rb = "joins (abs_path (base hub_pip_error) plugin_b) ''requirements.txt''"
  let ?rg = "joins (abs_path (base hub_pip_garbled) plugin_b) ''requirements.txt''"
  have eb: "exists fetched_b (joins (abs_path (base hub_pip_error) plugin_b) (name plugin_b @ ''.py''))"
    by code_simp
  have rb: "exists fetched_b ?rb"
    by code_simp
  have pb: "pip hub_pip_error ?rb = ([], ''ERROR: No matching distribution found for somelib'', 1)"
    by code_simp
  have db: "decode hub_pip_error ''ERROR: No matching distribution found for somelib'' =
              Some ''ERROR: No matching distribution found for somelib''"
    by code_simp
  have eg: "exists fetched_b (joins (abs_path (base hub_pip_garbled) plugin_b) (name plugin_b @ ''.py''))"
    by code_simp
  have rg: "exists fetched_b ?rg"
    by code_simp
  have pg: "pip hub_pip_garbled ?rg = ([], [CHR 0xFF], 1)"
    by code_simp
  have dg: "decode hub_pip_garbled [CHR 0xFF] = None"
    by code_simp
  have en: "exists fetched_n (joins (abs_path (base hub) plugin_n) (name plugin_n @ ''.py''))"
    by code_simp
  have rn: "\<not> exists fetched_n (joins (abs_path (base hub) plugin_n) ''requirements.txt'')"
    by code_simp
  have ns: "\<not> exists started (joins (abs_path (base hub) plugin_n) (name plugin_n @ ''.py''))"
    by code_simp
  note b = requirements_contract[of fetched_b hub_pip_error plugin_b]
  note g = requirements_contract[of fetched_b hub_pip_garbled plugin_b]
  have b1: "spawned (snd (load_plugin hub_pip_error plugin_b fetched_b)) = spawned fetched_b @ [?rb]"
    using b eb rb by blast
  have b2: "fst (load_plugin hub_pip_error plugin_b fetched_b) =
              Inl (InvalidPluginError (RequirementsFailed ''ERROR: No matching distribution found for somelib''))"
    using b eb rb pb db by simp
  have b3: "\<exists>text. fst (load_plugin hub_pip_error plugin_b fetched_b) =
              Inl (InvalidPluginError (RequirementsFailed text))"
    using b eb rb pb db by simp
  have g1: "fst (load_plugin hub_pip_garbled plugin_b fetched_b) = Inl UnicodeDecodeError"
    using g eg rg pg dg by simp
  have g2: "spawned (snd (load_plugin hub_pip_garbled plugin_b fetched_b)) = spawned fetched_b @ [?rg]"
    using g eg rg by blast
  have n1: "spawned (snd (load_plugin hub plugin_n fetched_n)) = spawned fetched_n"
    using requirements_contract[of fetched_n hub plugin_n] en rn by blast
  have s1: "load_plugin hub plugin_n started =
              (Inl (InvalidPluginError (EntryNotFound (name plugin_n @ ''.py''))), started)"
    using requirements_contract[of started hub plugin_n] ns by blast
  from eb rb pb db b1 b2 b3 eg rg pg dg g1 g2 en rn n1 ns s1 show ?thesis by (intro conjI)
qed

text \<open>
  Claim C7 as stated fails in both directions. An installer that exits with 1 and writes
  nothing to its standard error raises no error: the plugin is loaded. An installer that
  exits with 0 after writing a warning raises the error.
\<close>

theorem stderr_decides_not_exit_code:
  "exists fetched_b (joins (abs_path (base hub) plugin_b) (name plugin_b @ ''.py'')) \<and>
   exists fetched_b (joins (abs_path (base hub) plugin_b) ''requirements.txt'') \<and>
   pip hub_pip_silent (joins (abs_path (base hub) plugin_b) ''requirements.txt'') = ([], [], 1) \<and>
   fst (load_plugin hub_pip_silent plugin_b fetched_b) = Inr () \<and>
   plugin_b \<in> loaded_plugins (snd (load_plugin hub_pip_silent plugin_b fetched_b)) \<and>
   pip hub_pip_warning (joins (abs_path (base hub) plugin_b) ''requirements.txt'') =
     ([], ''WARNING: a newer pip is available'', 0) \<and>
   fst (load_plugin hub_pip_warning plugin_b fetched_b) =
     Inl (InvalidPluginError (RequirementsFailed ''WARNING: a newer pip is available''))"
  by code_simp

subsection \<open>Resolving a name\<close>

lemma files_sent: "files (s\<lparr>sent := x\<rparr>) = files s"
  by (rule ext) (simp add: files_def)

lemma split_once_slash: "CHR ''/'' \<in> set t \<Longrightarrow> split_once t \<noteq> None"
  by (simp add: split_once_def)

lemma parse_user_input_too_low:
  assumes "registry s plugin_name = Some d"
    and "CHR ''/'' \<in> set (repository d)"
    and "bot_version d = Some required"
    and "required \<noteq> []"
    and "host_version e < parse_version e required"
  shows "parse_user_input e plugin_name True s =
           (Inr None, send (if ready_event s then VersionTooLow required else StillLoading) s)"
proof -
  have "too_low e d" and "required_version d = required"
    using assms(3,4,5) by (simp_all add: too_low_def required_version_def)
  then show ?thesis
    using assms(1,2) by (auto simp: parse_user_input_def split_once_def)
qed

text \<open>
  Claim C2, as amended (version gate). Take a short name whose registry row has a
  repository of the form \<^verbatim>\<open>owner/repo\<close> and a required version above the host's.
  Once the readiness event is set, resolving it with version checking, and so
  \<^verbatim>\<open>plugins_add\<close> and \<^verbatim>\<open>update_plugin\<close>, ends with the version-too-low report and
  nothing else; while the event is not set, all three end with the still-loading report
  instead. In both cases no request is sent, the disk is untouched and no subprocess is
  spawned.
\<close>

theorem version_gate:
  assumes "registry s plugin_name = Some d"
    and "CHR ''/'' \<in> set (repository d)"
    and "bot_version d = Some required"
    and "required \<noteq> []"
    and "host_version e < parse_version e required"
  shows "(ready_event s \<longrightarrow>
            parse_user_input e plugin_name True s = (Inr None, send (VersionTooLow required) s) \<and>
            plugins_add e plugin_name s = (Inr (), send (VersionTooLow required) s) \<and>
            update_plugin e plugin_name s = (Inr (), send (VersionTooLow required) s)) \<and>
         (\<not> ready_event s \<longrightarrow>
            parse_user_input e plugin_name True s = (Inr None, send StillLoading s) \<and>
            plugins_add e plugin_name s = (Inr (), send StillLoading s) \<and>
            update_plugin e plugin_name s = (Inr (), send StillLoading s)) \<and>
         requests (snd (parse_user_input e plugin_name True s)) = requests s \<and>
         requests (snd (plugins_add e plugin_name s)) = requests s \<and>
         requests (snd (update_plugin e plugin_name s)) = requests s \<and>
         dirs (snd (plugins_add e plugin_name s)) = dirs s \<and>
         files (snd (plugins_add e plugin_name s)) = files s \<and>
         spawned (snd (plugins_add e plugin_name s)) = spawned s \<and>
         dirs (snd (update_plugin e plugin_name s)) = dirs s \<and>
         files (snd (update_plugin e plugin_name s)) = files s \<and>
         spawned (snd (update_plugin e plugin_name s)) = spawned s"
proof -
  note p = parse_user_input_too_low[OF assms]
  have a: "plugins_add e plugin_name s =
             (Inr (), send (if ready_event s then VersionTooLow required else StillLoading) s)"
    by (simp add: plugins_add_def p)
  have u: "update_plugin e plugin_name s =
             (Inr (), send (if ready_event s then VersionTooLow required else StillLoading) s)"
    by (simp add: update_plugin_def p)
  show ?thesis by (simp add: p a u send_def files_sent)
qed

text \<open>In the small world the row \<^verbatim>\<open>newer\<close> asks for version 9.0.0 of a bot at 3.3.0.\<close>

theorem version_gate_witness:
  "registry started ''newer'' =
     Some \<lparr>repository = ''u/r'', branch_opt = None, bot_version = Some ''9.0.0'',
           description = ''needs a newer bot''\<rparr> \<and>
   host_version hub < parse_version hub ''9.0.0'' \<and>
   ready_event started \<and>
   parse_user_input hub ''newer'' True started = (Inr None, send (VersionTooLow ''9.0.0'') started) \<and>
   plugins_add hub ''newer'' started = (Inr (), send (VersionTooLow ''9.0.0'') started) \<and>
   update_plugin hub ''newer'' started = (Inr (), send (VersionTooLow ''9.0.0'') started) \<and>
   requests (snd (plugins_add hub ''newer'' started)) = requests started \<and>
   requests (snd (update_plugin hub ''newer'' started)) = requests started \<and>
   registry started_disabled ''newer'' =
     Some \<lparr>repository = ''u/r'', branch_opt = None, bot_version = Some ''9.0.0'',
           description = ''needs a newer bot''\<rparr> \<and>
   \<not> ready_event started_disabled \<and>
   plugins_add hub ''newer'' started_disabled = (Inr (), send StillLoading started_disabled) \<and>
   requests (snd (plugins_add hub ''newer'' started_disabled)) = requests started_disabled"
proof -
  let ?d = "\<lparr>repository = ''u/r'', branch_opt = None, bot_version = Some ''9.0.0'',
             description = ''needs a newer bot''\<rparr>"
  have r: "registry started ''newer'' = Some ?d" by code_simp
  have v: "host_version hub < parse_version hub ''9.0.0''" by code_simp
  have y: "ready_event started" by code_simp
  have sl: "CHR ''/'' \<in> set (repository ?d)" by simp
  have bv: "bot_version ?d = Some ''9.0.0''" by simp
  have ne: "''9.0.0'' \<noteq> []" by simp
  have r': "registry started_disabled ''newer'' = Some ?d" by code_simp
  have y': "\<not> ready_event started_disabled" by code_simp
  note t = version_gate[OF r sl bv ne v]
  note t' = version_gate[OF r' sl bv ne v]
  from r v y t r' y' t' show ?thesis by blast
qed

text \<open>
  Claim C2 as stated fails. A bot started with \<^verbatim>\<open>ENABLE_PLUGINS=false\<close> never sets
  the readiness event; resolving \<^verbatim>\<open>newer\<close> there reports that plugins are still
  loading, and the version-too-low report is never sent.
\<close>

theorem version_gate_behind_readiness_gate:
  "registry started_disabled ''newer'' =
     Some \<lparr>repository = ''u/r'', branch_opt = None, bot_version = Some ''9.0.0'',
           description = ''needs a newer bot''\<rparr> \<and>
   host_version hub < parse_version hub ''9.0.0'' \<and>
   fst (parse_user_input hub ''newer'' True started_disabled) = Inr None \<and>
   sent (snd (parse_user_input hub ''newer'' True started_disabled)) =
     sent started_disabled @ [StillLoading] \<and>
   VersionTooLow ''9.0.0'' \<notin> set (sent (snd (parse_user_input hub ''newer'' True started_disabled))) \<and>
   VersionTooLow ''9.0.0'' \<notin> set (sent (snd (plugins_add hub ''newer'' started_disabled))) \<and>
   VersionTooLow ''9.0.0'' \<notin> set (sent (snd (update_plugin hub ''newer'' started_disabled)))"
  by code_simp

subsection \<open>Refreshing the registry\<close>

lemma parse_user_input_unlisted:
  assumes "ready_event s" and "registry s n = None"
  shows "fst (parse_user_input e n cv s) =
           (case from_string n False of Inl x \<Rightarrow> Inr None | Inr p \<Rightarrow> Inr (Some p))"
  using assms by (simp add: parse_user_input_def split: sum.splits)

text \<open>
  Claim C10 (a refresh replaces the catalog). When the official registry answers with a
  document, \<^verbatim>\<open>populate_registry\<close> returns and the catalog is that document; when the
  alternate registry answers with a document, \<^verbatim>\<open>populate_vregistry\<close> returns and the
  catalog is that one. Each assigns the one field and keeps nothing of its old value, and
  neither needs the other registry to answer. So a name that is not in the document just
  fetched is resolved as free text, whatever the catalog held before.
\<close>

theorem registry_replaced:
  "(http_get e registry_url = Some body \<and> json_loads e body = Some doc \<longrightarrow>
      fst (populate_registry e s) = Inr () \<and>
      registry (snd (populate_registry e s)) = doc \<and>
      (ready_event s \<and> doc n = None \<longrightarrow>
         fst (parse_user_input e n cv (snd (populate_registry e s))) =
           (case from_string n False of Inl x \<Rightarrow> Inr None | Inr p \<Rightarrow> Inr (Some p)))) \<and>
   (http_get e vregistry_url = Some vbody \<and> json_loads e vbody = Some vdoc \<longrightarrow>
      fst (populate_vregistry e s) = Inr () \<and>
      registry (snd (populate_vregistry e s)) = vdoc \<and>
      (ready_event s \<and> vdoc n = None \<longrightarrow>
         fst (parse_user_input e n cv (snd (populate_vregistry e s))) =
           (case from_string n False of Inl x \<Rightarrow> Inr None | Inr p \<Rightarrow> Inr (Some p))))"
proof (intro conjI impI)
  assume h: "http_get e registry_url = Some body \<and> json_loads e body = Some doc"
  have a: "populate_registry e s = (Inr (), s\<lparr>requests := requests s @ [registry_url], registry := doc\<rparr>)"
    using h by (simp add: populate_registry_def Let_def)
  show "fst (populate_registry e s) = Inr ()" by (simp add: a)
  show "registry (snd (populate_registry e s)) = doc" by (simp add: a)
  assume "ready_event s \<and> doc n = None"
  then show "fst (parse_user_input e n cv (snd (populate_registry e s))) =
           (case from_string n False of Inl x \<Rightarrow> Inr None | Inr p \<Rightarrow> Inr (Some p))"
    by (simp add: a parse_user_input_unlisted)
next
  assume h: "http_get e vregistry_url = Some vbody \<and> json_loads e vbody = Some vdoc"
  have b: "populate_vregistry e s = (Inr (), s\<lparr>requests := requests s @ [vregistry_url], registry := vdoc\<rparr>)"
    using h by (simp add: populate_vregistry_def Let_def)
  show "fst (populate_vregistry e s) = Inr ()" by (simp add: b)
  show "registry (snd (populate_vregistry e s)) = vdoc" by (simp add: b)
  assume "ready_event s \<and> vdoc n = None"
  then show "fst (parse_user_input e n cv (snd (populate_vregistry e s))) =
           (case from_string n False of Inl x \<Rightarrow> Inr None | Inr p \<Rightarrow> Inr (Some p))"
    by (simp add: b parse_user_input_unlisted)
qed

text \<open>
  In the small world the start-up leaves the alternate document in the catalog, with the
  row \<^verbatim>\<open>newer\<close>. After a refresh from the official registry, the alternate one being out
  of reach, that name is no row any more and, being no \<^verbatim>\<open>owner/repo/name\<close> either, is
  rejected. The row \<^verbatim>\<open>old\<close> of the official document goes the same way in a refresh from
  the alternate registry while the official one is out of reach.
\<close>

theorem registry_replaced_witness:
  "http_get hub_official_only registry_url = Some ''official'' \<and>
   http_get hub_official_only vregistry_url = None \<and>
   ready_event started \<and>
   registry started ''newer'' \<noteq> None \<and>
   the (documents ''official'') ''newer'' = None \<and>
   fst (populate_registry hub_official_only started) = Inr () \<and>
   registry (snd (populate_registry hub_official_only started)) = the (documents ''official'') \<and>
   registry (snd (populate_registry hub_official_only started)) ''newer'' = None \<and>
   fst (parse_user_input hub_official_only ''newer'' False
          (snd (populate_registry hub_official_only started))) = Inr None \<and>
   sent (snd (parse_user_input hub_official_only ''newer'' False
                (snd (populate_registry hub_official_only started)))) =
     sent started @ [InvalidName] \<and>
   http_get hub_alternate_only vregistry_url = Some ''alternate'' \<and>
   http_get hub_alternate_only registry_url = None \<and>
   ready_event (snd (populate_registry hub started)) \<and>
   registry (snd (populate_registry hub started)) ''old'' \<noteq> None \<and>
   the (documents ''alternate'') ''old'' = None \<and>
   fst (populate_vregistry hub_alternate_only (snd (populate_registry hub started))) = Inr () \<and>
   registry (snd (populate_vregistry hub_alternate_only (snd (populate_registry hub started)))) ''old'' = None \<and>
   fst (parse_user_input hub_alternate_only ''old'' False
          (snd (populate_vregistry hub_alternate_only (snd (populate_registry hub started))))) = Inr None"
proof -
  let ?s = "snd (populate_registry hub started)"
  have g: "http_get hub_official_only registry_url = Some ''official''" by code_simp
  have g0: "http_get hub_official_only vregistry_url = None" by code_simp
  have j: "json_loads hub_official_only ''official'' = Some (the (documents ''official''))"
    by (simp add: hub_official_only_def hub_def documents_def)
  have y: "ready_event started" by code_simp
  have b: "registry started ''newer'' \<noteq> None" by code_simp
  have n: "the (documents ''official'') ''newer'' = None" by code_simp
  have f: "from_string ''newer'' False = Inl (InvalidPluginError (CannotDecipher ''newer''))"
    by code_simp
  have m: "sent (snd (parse_user_input hub_official_only ''newer'' False
                        (snd (populate_registry hub_official_only started)))) =
             sent started @ [InvalidName]"
    by code_simp
  note t = registry_replaced[where e = hub_official_only and body = "''official''"
      and doc = "the (documents ''official'')" and s = started and n = "''newer''" and cv = False]
  have o: "fst (populate_registry hub_official_only started) = Inr ()"
    using t g j by blast
  have r: "registry (snd (populate_registry hub_official_only started)) = the (documents ''official'')"
    using t g j by blast
  have r': "registry (snd (populate_registry hub_official_only started)) ''newer'' = None"
    by (simp only: r n)
  have p: "fst (parse_user_input hub_official_only ''newer'' False
                  (snd (populate_registry hub_official_only started))) = Inr None"
    using t g j y n by (simp add: f)
  have g': "http_get hub_alternate_only vregistry_url = Some ''alternate''" by code_simp
  have g0': "http_get hub_alternate_only registry_url = None" by code_simp
  have j': "json_loads hub_alternate_only ''alternate'' = Some (the (documents ''alternate''))"
    by (simp add: hub_alternate_only_def hub_def documents_def)
  have y': "ready_event ?s" by code_simp
  have b': "registry ?s ''old'' \<noteq> None" by code_simp
  have n': "the (documents ''alternate'') ''old'' = None" by code_simp
  have f': "from_string ''old'' False = Inl (InvalidPluginError (CannotDecipher ''old''))"
    by code_simp
  note u = registry_replaced[where e = hub_alternate_only and vbody = "''alternate''"
      and vdoc = "the (documents ''alternate'')" and s = ?s and n = "''old''" and cv = False]
  have o': "fst (populate_vregistry hub_alternate_only ?s) = Inr ()"
    using u g' j' by blast
  have v: "registry (snd (populate_vregistry hub_alternate_only ?s)) = the (documents ''alternate'')"
    using u g' j' by blast
  have v': "registry (snd (populate_vregistry hub_alternate_only ?s)) ''old'' = None"
    by (simp only: v n')
  have q: "fst (parse_user_input hub_alternate_only ''old'' False
                  (snd (populate_vregistry hub_alternate_only ?s))) = Inr None"
    using u g' j' y' n' by (simp add: f')
  from g g0 y b n o r r' p m g' g0' y' b' n' o' v' q show ?thesis by (intro conjI)
qed

subsection \<open>The readiness event\<close>




























lemma loop_states_nonempty: "loop_states e s \<noteq> []"
  by (simp add: loop_states_def Let_def)







subsection \<open>The loaded set under an update\<close>

lemma load_plugin_failure:
  "load_plugin e plugin s = (Inl x, s') \<Longrightarrow>
     loaded_plugins s' = loaded_plugins s \<and> extensions s' = extensions s"
  by (auto simp: load_plugin_def install_requirements_def load_extension_def Let_def
      split: prod.splits sum.splits option.splits if_splits)

lemma load_plugin_success:
  "load_plugin e plugin s = (Inr y, s') \<Longrightarrow>
     loaded_plugins s' = insert plugin (loaded_plugins s) \<and>
     extensions s' = insert (ext_string plugin) (extensions s)"
  by (auto simp: load_plugin_def install_requirements_def load_extension_def Let_def
      split: prod.splits sum.splits option.splits if_splits)

text \<open>
  Claim C1 does not hold of \<^verbatim>\<open>update_plugin\<close>. A failed \<^verbatim>\<open>load_plugin\<close> leaves
  the loaded set as it was (the two lemmas above), but \<^verbatim>\<open>update_plugin\<close> unloads the
  extension first and does not take the plugin out of the set, as \<^verbatim>\<open>plugins_remove\<close>
  does. In the small world \<^verbatim>\<open>u/r/n\<close> is installed and loaded; its update, fetched when
  the code no longer imports, ends with the load error, and then the plugin is in the
  loaded set, and listed as loaded, while its extension is not loaded.
\<close>

theorem update_keeps_unloaded_plugin_in_loaded_set:
  "plugin_n \<in> loaded_plugins with_n \<and>
   ext_string plugin_n \<in> extensions with_n \<and>
   str plugin_n \<in> set (config_plugins with_n) \<and>
   enable_plugins with_n \<and>
   fst (update_plugin hub_broken ''u/r/n'' with_n) = Inl (InvalidPluginError ExtensionInvalid) \<and>
   plugin_n \<in> loaded_plugins (snd (update_plugin hub_broken ''u/r/n'' with_n)) \<and>
   ext_string plugin_n \<notin> extensions (snd (update_plugin hub_broken ''u/r/n'' with_n)) \<and>
   sent (plugins_loaded (snd (update_plugin hub_broken ''u/r/n'' with_n))) =
     sent with_n @ [LoadedPlugins {''u/r/n@master''}]"
  by code_simp

subsection \<open>Updating every plugin\<close>

lemma update_each_stops:
  "update_plugin e plugin_name s = (Inl x, s1) \<Longrightarrow>
     update_each e (plugin_name # rest) s = (Inl x, s1)"
  by simp

text \<open>
  Claim C5 does not hold of \<^verbatim>\<open>plugins_update\<close>: an exception of one update leaves
  the loop (the lemma above), since neither \<^verbatim>\<open>update_plugin\<close> nor the loop catches
  it. In the small world \<^verbatim>\<open>a\<close>, \<^verbatim>\<open>b\<close> and \<^verbatim>\<open>c\<close> are installed and the
  installer fails on the manifest of \<^verbatim>\<open>b\<close>: the command ends with that
  error, having reported the update of \<^verbatim>\<open>a\<close> only and never requested the archive
  of \<^verbatim>\<open>c\<close> again.
\<close>

theorem bulk_update_stops_at_first_failure:
  "(case plugins_update hub_pip_error None with_abc of
      (r, s) \<Rightarrow> (r, config_plugins s, sent s, requests s)) =
   (Inl (InvalidPluginError (RequirementsFailed ''ERROR: No matching distribution found for somelib'')),
    [''u/ra/a@master'', ''u/rb/b@master'', ''u/rc/c@master''],
    [Downloading ''https://github.com/u/ra/tree/master/a'', Installed,
     Downloading ''https://github.com/u/rb/tree/master/b'', Installed,
     Downloading ''https://github.com/u/rc/tree/master/c'', Installed,
     Updated ''a''],
    [registry_url, vregistry_url,
     ''https://github.com/u/ra/archive/master.zip'',
     ''https://github.com/u/rb/archive/master.zip'',
     ''https://github.com/u/rc/archive/master.zip'',
     ''https://github.com/u/ra/archive/master.zip'',
     ''https://github.com/u/rb/archive/master.zip''])"
  by code_simp

subsection \<open>Equality and hash of plugin references\<close>

lemma eq_iff_str: "eq p q = (str p = str q)"
  by (simp add: eq_def)

lemma hash_tuple_inject: "(hash_tuple p = hash_tuple q) = (p = q)"
  by (cases p, cases q) (auto simp: hash_tuple_def)

text \<open>
  Claim C8 does not hold of \<^verbatim>\<open>__eq__\<close> and \<^verbatim>\<open>__hash__\<close> together.
  \<^verbatim>\<open>__eq__\<close> compares the canonical strings and \<^verbatim>\<open>__hash__\<close> hashes the tuple
  of the fields, which is the same for two references only when they have the same fields
  (the lemmas above). The free text \<^verbatim>\<open>a/b/c/n\<close> and a registry row \<^verbatim>\<open>n\<close> of the
  repository \<^verbatim>\<open>a/b/c\<close> give two references with the one canonical string
  \<^verbatim>\<open>a/b/c/n@master\<close>: they are equal, their names differ, and so do their hash
  tuples and, for one, the hashes a hash of the name's length gives them. The order of
  display does compare the names without regard to case.
\<close>

theorem equal_refs_hash_differently:
  "from_string ''a/b/c/n'' False = Inr (Plugina ''a'' ''b'' ''c/n'' None) \<and>
   split_once ''a/b/c'' = Some (''a'', ''b/c'') \<and>
   str (Plugina ''a'' ''b'' ''c/n'' None) = ''a/b/c/n@master'' \<and>
   str (Plugina ''a'' ''b/c'' ''n'' None) = ''a/b/c/n@master'' \<and>
   eq (Plugina ''a'' ''b'' ''c/n'' None) (Plugina ''a'' ''b/c'' ''n'' None) \<and>
   name (Plugina ''a'' ''b'' ''c/n'' None) \<noteq> name (Plugina ''a'' ''b/c'' ''n'' None) \<and>
   hash_tuple (Plugina ''a'' ''b'' ''c/n'' None) \<noteq> hash_tuple (Plugina ''a'' ''b/c'' ''n'' None) \<and>
   hash (\<lambda>(u, r, n, b). int (length n)) (Plugina ''a'' ''b'' ''c/n'' None) \<noteq>
     hash (\<lambda>(u, r, n, b). int (length n)) (Plugina ''a'' ''b/c'' ''n'' None) \<and>
   lt (Plugina ''a'' ''b'' ''alpha'' None) (Plugina ''a'' ''b'' ''Beta'' None) \<and>
   \<not> lt (Plugina ''a'' ''b'' ''Beta'' None) (Plugina ''a'' ''b'' ''alpha'' None)"
  by code_simp

end
